theory Spec2Isabelle
  imports Main "HOL-Library.Char_ord" "HOL-Library.List_Lexorder"
begin


section \<open>Errors\<close>

text \<open>
  The ways a run can stop early: \<^verbatim>\<open>raise SystemExit(msg)\<close>, and the exceptions that
  no handler of the scripts catches.
\<close>

datatype error = SystemExit string | ZeroDivisionError | ValueError | IndexError | OSError string

section \<open>Python string primitives used by the scripts\<close>

text \<open>
  File names are modelled as \<^typ>\<open>string\<close>: lists of 8-bit characters, read as the
  code points U+0000 to U+00FF (ASCII and Latin-1). Names with other characters are
  outside the model. Strings are ordered as Python orders them, character by
  character with a proper prefix first (the lexicographic order on lists over the
  order of characters by code).

  Among these characters \<^verbatim>\<open>str.isdigit\<close> holds of the decimal digits \<^verbatim>\<open>0\<close> .. \<^verbatim>\<open>9\<close>
  and of the superscript digits U+00B2, U+00B3 and U+00B9, while \<^verbatim>\<open>str.isdecimal\<close>
  holds of the decimal digits only.
\<close>

definition is_decimal_char :: "char \<Rightarrow> bool" where
  "is_decimal_char c = (48 \<le> (of_char c :: nat) \<and> (of_char c :: nat) \<le> 57)"

definition is_digit_char :: "char \<Rightarrow> bool" where
  "is_digit_char c = (is_decimal_char c \<or> (of_char c :: nat) \<in> {178, 179, 185})"

text \<open>\<^verbatim>\<open>s.isdigit()\<close>: at least one character, and every character a digit.\<close>

definition isdigit :: "string \<Rightarrow> bool" where
  "isdigit s = (s \<noteq> [] \<and> list_all is_digit_char s)"

text \<open>\<^verbatim>\<open>s.isdecimal()\<close>: at least one character, and every character a decimal digit.\<close>

definition isdecimal :: "string \<Rightarrow> bool" where
  "isdecimal s = (s \<noteq> [] \<and> list_all is_decimal_char s)"

text \<open>The value of a string of decimal digits, leading zeros allowed.\<close>

definition decimal_value :: "string \<Rightarrow> nat" where
  "decimal_value s = fold (\<lambda>c n. 10 * n + (of_char c - 48)) s 0"

text \<open>
  \<^verbatim>\<open>int(s)\<close>, which the scripts call on strings that pass \<^verbatim>\<open>isdigit\<close> only: the
  decimal value when every character is a decimal digit, and \<^verbatim>\<open>ValueError\<close> when
  one of them is a superscript digit.
\<close>

definition py_int :: "string \<Rightarrow> error + nat" where
  "py_int s = (if isdecimal s then Inr (decimal_value s) else Inl ValueError)"

text \<open>\<^verbatim>\<open>s.rfind(c)\<close>: the index of the last occurrence of \<open>c\<close>, or \<open>-1\<close>.\<close>

fun rfind_from :: "char \<Rightarrow> string \<Rightarrow> int \<Rightarrow> int \<Rightarrow> int" where
  "rfind_from c [] i found = found"
| "rfind_from c (d # ds) i found = rfind_from c ds (i + 1) (if d = c then i else found)"

definition rfind :: "char \<Rightarrow> string \<Rightarrow> int" where
  "rfind c s = rfind_from c s 0 (- 1)"

text \<open>
  \<^verbatim>\<open>os.path.splitext\<close> (the POSIX version): the extension starts at the last dot,
  provided that dot lies after the last slash and is preceded, within the last path
  component, by a character other than a dot; otherwise there is no extension.
\<close>

definition splitext :: "string \<Rightarrow> string \<times> string" where
  "splitext p =
     (let sepIndex = rfind (CHR ''/'') p;
          dotIndex = rfind (CHR ''.'') p
      in if dotIndex > sepIndex \<and>
            list_ex (\<lambda>c. c \<noteq> CHR ''.'')
              (take (nat dotIndex - nat (sepIndex + 1)) (drop (nat (sepIndex + 1)) p))
         then (take (nat dotIndex) p, drop (nat dotIndex) p)
         else (p, []))"

text \<open>\<^verbatim>\<open>s.split(d)\<close> for a one-character delimiter: never empty, keeps empty segments.\<close>

fun py_split :: "char \<Rightarrow> string \<Rightarrow> string list" where
  "py_split d [] = [[]]"
| "py_split d (c # cs) =
     (if c = d then [] # py_split d cs
      else (case py_split d cs of
              [] \<Rightarrow> [[c]]
            | s # ss \<Rightarrow> (c # s) # ss))"

text \<open>\<^verbatim>\<open>d.join(segments)\<close>, the inverse of \<^verbatim>\<open>split\<close>; used to state properties only.\<close>

fun py_join :: "char \<Rightarrow> string list \<Rightarrow> string" where
  "py_join d [] = []"
| "py_join d [s] = s"
| "py_join d (s # t # ts) = s @ d # py_join d (t # ts)"

section \<open>The coordinate parser\<close>

text \<open>
  \<^verbatim>\<open>parse_xy_from_name\<close>, the same function in all three scripts. \<^verbatim>\<open>parts[-2]\<close> and
  \<^verbatim>\<open>parts[-1]\<close> are read only once \<^verbatim>\<open>len(parts) >= 2\<close> is known. Both results are
  non-negative, so a coordinate is a pair of naturals. The two calls of \<^verbatim>\<open>int\<close> are
  guarded by \<^verbatim>\<open>isdigit\<close>, which lets the superscript digits through: on them \<^verbatim>\<open>int\<close>
  raises, and the function with it.
\<close>

definition parse_xy_from_name :: "string \<Rightarrow> error + (nat \<times> nat) option" where
  "parse_xy_from_name name =
     (let base = fst (splitext name);
          parts = py_split (CHR ''_'') base
      in if length parts < 2 then Inr None
         else (let x_part = parts ! (length parts - 2);
                   y_part = last parts
               in if isdigit x_part \<and> isdigit y_part
                  then (case py_int x_part of
                          Inl e \<Rightarrow> Inl e
                        | Inr x \<Rightarrow>
                            (case py_int y_part of
                               Inl e \<Rightarrow> Inl e
                             | Inr y \<Rightarrow> Inr (Some (x, y))))
                  else Inr None))"

text \<open>
  The reading of the parser that drops empty segments before taking the last two,
  for comparison with the code.
\<close>

definition parse_last_two_nonempty :: "string \<Rightarrow> (nat \<times> nat) option" where
  "parse_last_two_nonempty name =
     (let segs = filter (\<lambda>s. s \<noteq> []) (py_split (CHR ''_'') (fst (splitext name)))
      in if 2 \<le> length segs \<and> isdecimal (segs ! (length segs - 2)) \<and> isdecimal (last segs)
         then Some (decimal_value (segs ! (length segs - 2)), decimal_value (last segs))
         else None)"

section \<open>Grids and coordinate inference\<close>

text \<open>
  A grid is the scripts' list of rows, \<^verbatim>\<open>grid[y][x]\<close>, each cell a file name or
  \<^verbatim>\<open>None\<close> (a hole).
\<close>

type_synonym grid = "string option list list"

text \<open>\<^verbatim>\<open>[[None for _ in range(width)] for __ in range(height)]\<close>\<close>

definition empty_grid :: "nat \<Rightarrow> nat \<Rightarrow> grid" where
  "empty_grid width height = replicate height (replicate width None)"

text \<open>\<^verbatim>\<open>grid[y][x] = fname\<close>, used only with \<open>y\<close> and \<open>x\<close> in range.\<close>

definition set_cell :: "grid \<Rightarrow> nat \<Rightarrow> nat \<Rightarrow> string \<Rightarrow> grid" where
  "set_cell grid y x fname = grid[y := (grid ! y)[x := Some fname]]"

text \<open>
  The first loop of \<^verbatim>\<open>reorder_with_coordinates\<close>: the triples of the names that parse,
  in the order of the names. A name on which the parser raises ends the loop.
\<close>

fun parsed_coords :: "string list \<Rightarrow> error + (nat \<times> nat \<times> string) list" where
  "parsed_coords [] = Inr []"
| "parsed_coords (f # fs) =
     (case parse_xy_from_name f of
        Inl e \<Rightarrow> Inl e
      | Inr xy \<Rightarrow>
          (case parsed_coords fs of
             Inl e \<Rightarrow> Inl e
           | Inr coords \<Rightarrow>
               Inr ((case xy of None \<Rightarrow> [] | Some (x, y) \<Rightarrow> [(x, y, f)]) @ coords)))"

text \<open>The second loop: every triple is written to its cell, a later one over an earlier.\<close>

definition place_coords :: "nat \<Rightarrow> nat \<Rightarrow> (nat \<times> nat \<times> string) list \<Rightarrow> grid \<Rightarrow> grid" where
  "place_coords width height coords grid =
     fold (\<lambda>(x, y, fname) g. if y < height \<and> x < width then set_cell g y x fname else g)
       coords grid"

text \<open>The third loop: the names of the cells that are not holes, row by row.\<close>

definition grid_names :: "nat \<Rightarrow> nat \<Rightarrow> grid \<Rightarrow> string list" where
  "grid_names width height grid =
     concat (map (\<lambda>y. concat (map (\<lambda>x. case grid ! y ! x of None \<Rightarrow> [] | Some f \<Rightarrow> [f])
                                  [0..<width]))
                 [0..<height])"

text \<open>
  \<^verbatim>\<open>reorder_with_coordinates\<close> returns \<^verbatim>\<open>(ordered, width, height, grid)\<close>, or four
  \<^verbatim>\<open>None\<close>s (here \<open>None\<close>) when no name parses. \<^verbatim>\<open>max\<close> runs over a non-empty list.
\<close>

definition reorder_with_coordinates ::
  "string list \<Rightarrow> error + (string list \<times> nat \<times> nat \<times> grid) option" where
  "reorder_with_coordinates fnames =
     (case parsed_coords fnames of
        Inl e \<Rightarrow> Inl e
      | Inr [] \<Rightarrow> Inr None
      | Inr (c # cs) \<Rightarrow>
          (let coords = c # cs;
               max_x = fold max (map (\<lambda>(x, y, f). x) cs) (fst c);
               max_y = fold max (map (\<lambda>(x, y, f). y) cs) (fst (snd c));
               width = max_x + 1;
               height = max_y + 1;
               grid = place_coords width height coords (empty_grid width height);
               ordered = grid_names width height grid
           in Inr (Some (ordered, width, height, grid))))"

text \<open>
  The triples of the names that parse, when the parser raises on none of them; used
  to state properties.
\<close>

definition coord_triples :: "string list \<Rightarrow> (nat \<times> nat \<times> string) list" where
  "coord_triples fnames =
     concat (map (\<lambda>f. case parse_xy_from_name f of
                         Inr (Some (x, y)) \<Rightarrow> [(x, y, f)]
                       | _ \<Rightarrow> []) fnames)"

text \<open>The shape every grid of the scripts has: \<open>height\<close> rows of \<open>width\<close> cells.\<close>

definition well_shaped :: "nat \<Rightarrow> nat \<Rightarrow> grid \<Rightarrow> bool" where
  "well_shaped width height grid = (length grid = height \<and> (\<forall>row \<in> set grid. length row = width))"

text \<open>The names of the triples at \<open>(x, y)\<close>, in the order of the list; used to state properties.\<close>

definition names_at :: "(nat \<times> nat \<times> string) list \<Rightarrow> nat \<Rightarrow> nat \<Rightarrow> string list" where
  "names_at coords x y = map (\<lambda>(x', y', f). f) (filter (\<lambda>(x', y', f). x' = x \<and> y' = y) coords)"

section \<open>Arithmetic and loops shared by the scripts\<close>

text \<open>\<^verbatim>\<open>--order\<close>, one of \<^verbatim>\<open>row\<close> and \<^verbatim>\<open>col\<close>.\<close>

datatype order = Row | Col

text \<open>
  The numeric options \<^verbatim>\<open>--block\<close>, \<^verbatim>\<open>--tile_size\<close>, \<^verbatim>\<open>--guidance_size\<close>,
  \<^verbatim>\<open>--tiles_per_row\<close> and \<^verbatim>\<open>--coord_digits\<close> are modelled as naturals (zero
  included); negative values are outside the model.
  Floating point is not modelled: \<^verbatim>\<open>int(math.sqrt(N))\<close> is the integer square root
  and \<^verbatim>\<open>math.ceil(N / W)\<close> the exact rounded-up quotient, as they are for every
  count below \<open>2^52\<close>. Division by \<open>W = 0\<close> raises.
\<close>

fun sqrt_down :: "nat \<Rightarrow> nat \<Rightarrow> nat" where
  "sqrt_down n 0 = 0"
| "sqrt_down n (Suc k) = (if Suc k * Suc k \<le> n then Suc k else sqrt_down n k)"

definition int_sqrt :: "nat \<Rightarrow> nat" where
  "int_sqrt n = sqrt_down n n"

definition ceil_div :: "nat \<Rightarrow> nat \<Rightarrow> error + nat" where
  "ceil_div n w = (if w = 0 then Inl ZeroDivisionError else Inr ((n + w - 1) div w))"

text \<open>
  The cells in the order of \<^verbatim>\<open>for y in range(H): for x in range(W)\<close> and of
  \<^verbatim>\<open>for x in range(W): for y in range(H)\<close>, each as \<open>(y, x)\<close>.
\<close>

definition row_major :: "nat \<Rightarrow> nat \<Rightarrow> (nat \<times> nat) list" where
  "row_major W H = concat (map (\<lambda>y. map (\<lambda>x. (y, x)) [0..<W]) [0..<H])"

definition col_major :: "nat \<Rightarrow> nat \<Rightarrow> (nat \<times> nat) list" where
  "col_major W H = concat (map (\<lambda>x. map (\<lambda>y. (y, x)) [0..<H]) [0..<W])"

text \<open>
  The loop that fills a fresh grid from a list of names, with its counter \<open>k\<close>:
  \<^verbatim>\<open>if k < len(names): grid[y][x] = names[k]; k += 1\<close>.
\<close>

definition fill_step :: "string list \<Rightarrow> nat \<times> nat \<Rightarrow> grid \<times> nat \<Rightarrow> grid \<times> nat" where
  "fill_step names = (\<lambda>(y, x) (g, k).
     if k < length names then (set_cell g y x (names ! k), k + 1) else (g, k))"

definition fill_grid :: "nat \<Rightarrow> nat \<Rightarrow> string list \<Rightarrow> grid" where
  "fill_grid W H names = fst (fold (fill_step names) (row_major W H) (empty_grid W H, 0))"

text \<open>
  \<^verbatim>\<open>padded = idxs + [N-1] * (W * H - N)\<close> and the loop that builds \<^verbatim>\<open>order_list\<close>
  from it, with its counter \<open>k\<close>: \<^verbatim>\<open>order_list.append(names[padded[k]]); k += 1\<close>.
  The loop body does not mention \<open>x\<close> or \<open>y\<close>. Every index read is in range
  whenever \<open>names\<close> is non-empty and \<open>W * H\<close> is at least its length
  (\<open>order_list_indices_in_range\<close>).
\<close>

definition padded_indices :: "nat \<Rightarrow> nat \<Rightarrow> nat \<Rightarrow> nat list" where
  "padded_indices N W H = [0..<N] @ replicate (W * H - N) (N - 1)"

definition order_step :: "string list \<Rightarrow> nat list \<Rightarrow> nat \<times> nat \<Rightarrow> string list \<times> nat \<Rightarrow> string list \<times> nat" where
  "order_step names padded = (\<lambda>(y, x) (order_list, k). (order_list @ [names ! (padded ! k)], k + 1))"

definition build_order_list :: "string list \<Rightarrow> nat \<Rightarrow> nat \<Rightarrow> order \<Rightarrow> string list" where
  "build_order_list names W H ord =
     (let padded = padded_indices (length names) W H
      in fst (fold (order_step names padded)
                (case ord of Row \<Rightarrow> row_major W H | Col \<Rightarrow> col_major W H)
                ([], 0)))"

section \<open>The fallback grids of block aggregation\<close>

text \<open>
  The \<^verbatim>\<open>else\<close> branch of \<^verbatim>\<open>main\<close> in \<^verbatim>\<open>build_z2_from_z1_tiles_no_real.py\<close> and
  \<^verbatim>\<open>build_z2_from_z1_tiles.py\<close> (the two are the same here), taken when no name
  parses: with \<^verbatim>\<open>--tiles_per_row\<close>, and without it. Each returns
  \<^verbatim>\<open>(common_ordered, W, H, name_grid)\<close>.
\<close>

definition tiles_per_row_grid :: "nat \<Rightarrow> string list \<Rightarrow> error + (string list \<times> nat \<times> nat \<times> grid)" where
  "tiles_per_row_grid tiles_per_row common =
     (let N = length common; W = tiles_per_row
      in case ceil_div N W of
           Inl e \<Rightarrow> Inl e
         | Inr H \<Rightarrow> Inr (common, W, H, fill_grid W H common))"

definition approx_grid :: "nat \<Rightarrow> order \<Rightarrow> string list \<Rightarrow> error + (string list \<times> nat \<times> nat \<times> grid)" where
  "approx_grid S ord common =
     (let N = length common; approx_w = max S (int_sqrt N); W = approx_w
      in case ceil_div N W of
           Inl e \<Rightarrow> Inl e
         | Inr H \<Rightarrow>
             (let order_list = build_order_list common W H ord
              in Inr (order_list, W, H, fill_grid W H order_list)))"

text \<open>Lines 95 to 143 of \<^verbatim>\<open>main\<close>: coordinates first, then the two fallbacks.\<close>

definition build_name_grid ::
  "nat \<Rightarrow> nat option \<Rightarrow> order \<Rightarrow> string list \<Rightarrow> error + (string list \<times> nat \<times> nat \<times> grid)" where
  "build_name_grid S tiles_per_row ord common =
     (case reorder_with_coordinates common of
        Inl e \<Rightarrow> Inl e
      | Inr (Some r) \<Rightarrow> Inr r
      | Inr None \<Rightarrow>
          (case tiles_per_row of
             Some W \<Rightarrow> tiles_per_row_grid W common
           | None \<Rightarrow> approx_grid S ord common))"

section \<open>The fallback grid of the mosaic stitcher\<close>

text \<open>\<^verbatim>\<open>build_grid_without_coords\<close> of \<^verbatim>\<open>stitch_full_mosaic.py\<close>.\<close>

definition build_grid_without_coords ::
  "string list \<Rightarrow> nat option \<Rightarrow> order \<Rightarrow> error + (string list \<times> nat \<times> nat \<times> grid)" where
  "build_grid_without_coords fnames tiles_per_row ord =
     (let N = length fnames
      in if N = 0 then Inl (SystemExit ''No PNG files found in tiles_dir'')
         else (let W = (case tiles_per_row of
                          Some w \<Rightarrow> w
                        | None \<Rightarrow> max 1 (int_sqrt N))
               in case ceil_div N W of
                    Inl e \<Rightarrow> Inl e
                  | Inr H \<Rightarrow>
                      (let order_list = build_order_list fnames W H ord
                       in Inr (order_list, W, H, fill_grid W H order_list))))"

text \<open>
  The layout that follows the order flag, for comparison with the code: the name at
  position \<open>y * W + x\<close> of the padded list in row-major order, and at position
  \<open>x * H + y\<close> in column-major order.
\<close>

definition layout_by_order :: "order \<Rightarrow> nat \<Rightarrow> nat \<Rightarrow> string list \<Rightarrow> grid" where
  "layout_by_order ord W H names =
     map (\<lambda>y. map (\<lambda>x. Some (names ! (case ord of Row \<Rightarrow> y * W + x | Col \<Rightarrow> x * H + y)))
                [0..<W])
         [0..<H]"

section \<open>Directory listings\<close>

text \<open>
  \<^verbatim>\<open>s.lower()\<close>: the capital letters of ASCII (\<^verbatim>\<open>A\<close> to \<^verbatim>\<open>Z\<close>) and of Latin-1
  (U+00C0 to U+00DE without the multiplication sign U+00D7) move 32 places up.
  And \<^verbatim>\<open>s.endswith(suffix)\<close>.
\<close>

definition py_lower :: "string \<Rightarrow> string" where
  "py_lower s = map (\<lambda>c. if (65 \<le> (of_char c :: nat) \<and> (of_char c :: nat) \<le> 90) \<or>
                             (192 \<le> (of_char c :: nat) \<and> (of_char c :: nat) \<le> 222 \<and>
                              (of_char c :: nat) \<noteq> 215)
                          then char_of (of_char c + 32 :: nat) else c) s"

definition endswith :: "string \<Rightarrow> string \<Rightarrow> bool" where
  "endswith s suffix =
     (length suffix \<le> length s \<and> drop (length s - length suffix) s = suffix)"

text \<open>
  \<^verbatim>\<open>read_pngs_sorted\<close>, given the result of \<^verbatim>\<open>os.listdir\<close>: the names ending in
  \<^verbatim>\<open>.png\<close> in any case, in lexicographic order. Listing a directory is taken to
  succeed.
\<close>

definition read_pngs_sorted :: "string list \<Rightarrow> string list" where
  "read_pngs_sorted listing = sort (filter (\<lambda>f. endswith (py_lower f) ''.png'') listing)"

section \<open>The mosaic stitcher\<close>

text \<open>
  The image codec is opaque. A file of the tile directory either cannot be opened
  (\<^verbatim>\<open>Image.open\<close> raises), or opens and shows its mode and size while its pixels
  cannot be loaded (the later \<^verbatim>\<open>resize\<close> or \<^verbatim>\<open>paste\<close> raises), or decodes to pixels
  \<open>'d\<close>. A directory gives the file behind every name.
\<close>

datatype 'd tile_file =
    Unreadable
  | Header_only string "nat \<times> nat"
  | Decodable string "nat \<times> nat" 'd

type_synonym 'd directory = "string \<Rightarrow> 'd tile_file"

text \<open>\<^verbatim>\<open>im.mode\<close> and \<^verbatim>\<open>im.size\<close> of an opened file.\<close>

fun header :: "'d tile_file \<Rightarrow> (string \<times> nat \<times> nat) option" where
  "header Unreadable = None"
| "header (Header_only mode (w, h)) = Some (mode, w, h)"
| "header (Decodable mode (w, h) d) = Some (mode, w, h)"

text \<open>
  One \<^verbatim>\<open>mosaic.paste(tile, (x * tile_w, y * tile_h))\<close>: the offset, the name and
  the pixels of the tile, and its own size when it had to be resized.
\<close>

datatype 'd paste =
  Paste (at: "nat \<times> nat") (src: string) (pixels: 'd) (resized_from: "(nat \<times> nat) option")

text \<open>The canvas \<^verbatim>\<open>Image.new(mode, (full_w, full_h))\<close> with the pastes made into it.\<close>

datatype 'd mosaic =
  Mosaic (mo_mode: string) (mo_size: "nat \<times> nat") (mo_pastes: "'d paste list")

text \<open>
  The body of the double loop of \<^verbatim>\<open>stitch_tiles\<close> at the cell \<open>(y, x)\<close>, on the
  pastes made and the warnings printed so far. Every exception inside the
  \<^verbatim>\<open>try\<close> ends in the warning.
\<close>

definition paste_cell ::
  "'d directory \<Rightarrow> nat \<Rightarrow> nat \<Rightarrow> grid \<Rightarrow> nat \<times> nat \<Rightarrow>
   'd paste list \<times> string list \<Rightarrow> 'd paste list \<times> string list" where
  "paste_cell dir tile_w tile_h grid = (\<lambda>(y, x) (pastes, warnings).
     case grid ! y ! x of
       None \<Rightarrow> (pastes, warnings)
     | Some fname \<Rightarrow>
         (case dir fname of
            Decodable mode sz d \<Rightarrow>
              (pastes @ [Paste (x * tile_w, y * tile_h) fname d
                           (if sz \<noteq> (tile_w, tile_h) then Some sz else None)],
               warnings)
          | _ \<Rightarrow> (pastes, warnings @ [fname])))"

text \<open>Lines 113 to 119: the grid from coordinates, or else the fallback grid.\<close>

definition stitch_grid ::
  "string list \<Rightarrow> nat option \<Rightarrow> order \<Rightarrow> error + (string list \<times> nat \<times> nat \<times> grid)" where
  "stitch_grid fnames tiles_per_row ord =
     (case reorder_with_coordinates fnames of
        Inl e \<Rightarrow> Inl e
      | Inr (Some r) \<Rightarrow> Inr r
      | Inr None \<Rightarrow> build_grid_without_coords fnames tiles_per_row ord)"

text \<open>
  Lines 108 to 145 of \<^verbatim>\<open>stitch_tiles\<close>, given the name of the tile directory, its
  listing and its files: the mosaic composed in memory with the warnings printed, or
  the error that ended the run. \<^verbatim>\<open>ordered[0]\<close> raises on an empty list, and the
  reference tile is opened outside any \<^verbatim>\<open>try\<close>.
\<close>

definition compose_mosaic ::
  "string \<Rightarrow> string list \<Rightarrow> 'd directory \<Rightarrow> nat option \<Rightarrow> order \<Rightarrow>
   error + ('d mosaic \<times> string list)" where
  "compose_mosaic tiles_dir listing dir tiles_per_row ord =
     (let fnames = read_pngs_sorted listing
      in if fnames = [] then Inl (SystemExit (''No PNG files found in '' @ tiles_dir))
         else (case stitch_grid fnames tiles_per_row ord of
                 Inl e \<Rightarrow> Inl e
               | Inr (ordered, W, H, grid) \<Rightarrow>
                   (case ordered of
                      [] \<Rightarrow> Inl IndexError
                    | first # rest \<Rightarrow>
                        (case header (dir first) of
                           None \<Rightarrow> Inl (OSError first)
                         | Some (mode, tile_w, tile_h) \<Rightarrow>
                             (let full_w = W * tile_w;
                                  full_h = H * tile_h;
                                  (pastes, warnings) =
                                     fold (paste_cell dir tile_w tile_h grid) (row_major W H) ([], [])
                              in Inr (Mosaic mode (full_w, full_h) pastes, warnings))))))"

text \<open>
  Lines 147 and 148, \<^verbatim>\<open>os.makedirs(os.path.dirname(out_path), exist_ok=True)\<close> and
  \<^verbatim>\<open>mosaic.save(out_path)\<close>, depend on the output path, on the library and on the file
  system: an output path without a directory part, an extension that names no image
  format, an image without pixels and a write that fails all raise. What they do
  with a path and a mosaic is a parameter of the model: \<open>None\<close> when the mosaic is
  saved, and the exception otherwise.
\<close>

type_synonym 'd saver = "string \<Rightarrow> 'd mosaic \<Rightarrow> error option"

text \<open>
  \<^verbatim>\<open>stitch_tiles\<close> as a whole: the composed mosaic is saved. The result is the saved
  mosaic with the warnings printed, or the error that ended the run.
\<close>

definition stitch_tiles ::
  "string \<Rightarrow> string list \<Rightarrow> 'd directory \<Rightarrow> 'd saver \<Rightarrow> string \<Rightarrow> nat option \<Rightarrow> order \<Rightarrow>
   error + ('d mosaic \<times> string list)" where
  "stitch_tiles tiles_dir listing dir save_mosaic out_path tiles_per_row ord =
     (case compose_mosaic tiles_dir listing dir tiles_per_row ord of
        Inl e \<Rightarrow> Inl e
      | Inr (mosaic, warnings) \<Rightarrow>
          (case save_mosaic out_path mosaic of
             Some e \<Rightarrow> Inl e
           | None \<Rightarrow> Inr (mosaic, warnings)))"

text \<open>What one cell adds to the pastes and to the warnings; used to state properties.\<close>

definition cell_pastes :: "'d directory \<Rightarrow> nat \<Rightarrow> nat \<Rightarrow> grid \<Rightarrow> nat \<times> nat \<Rightarrow> 'd paste list" where
  "cell_pastes dir tile_w tile_h grid = (\<lambda>(y, x).
     case grid ! y ! x of
       None \<Rightarrow> []
     | Some fname \<Rightarrow>
         (case dir fname of
            Decodable mode sz d \<Rightarrow>
              [Paste (x * tile_w, y * tile_h) fname d
                 (if sz \<noteq> (tile_w, tile_h) then Some sz else None)]
          | _ \<Rightarrow> []))"

definition cell_warnings :: "'d directory \<Rightarrow> grid \<Rightarrow> nat \<times> nat \<Rightarrow> string list" where
  "cell_warnings dir grid = (\<lambda>(y, x).
     case grid ! y ! x of
       None \<Rightarrow> []
     | Some fname \<Rightarrow> (case dir fname of Decodable mode sz d \<Rightarrow> [] | _ \<Rightarrow> [fname]))"

text \<open>Example tile directories, used in the concrete runs below.\<close>

definition all_256_dir :: "string directory" where
  "all_256_dir f = Decodable ''RGB'' (256, 256) f"

definition two_sizes_dir :: "string directory" where
  "two_sizes_dir f =
     (if f = ''t_0_1.png'' then Decodable ''RGB'' (100, 100) f
      else Decodable ''RGB'' (256, 256) f)"

definition first_unreadable_dir :: "string directory" where
  "first_unreadable_dir f =
     (if f = ''0_0.png'' then Unreadable else Decodable ''RGB'' (256, 256) f)"

definition middle_unreadable_dir :: "string directory" where
  "middle_unreadable_dir f =
     (if f = ''1_0.png'' then Unreadable
      else if f = ''2_0.png'' then Header_only ''RGB'' (256, 256)
      else Decodable ''RGB'' (256, 256) f)"

text \<open>
  An example of what saving does: a library that knows the extension \<^verbatim>\<open>.png\<close> only,
  on a file system where every write succeeds.
\<close>

definition png_saver :: "string saver" where
  "png_saver out_path mosaic =
     (if CHR ''/'' \<notin> set out_path then Some (OSError [])
      else if \<not> endswith (py_lower out_path) ''.png'' then Some ValueError
      else None)"

section \<open>Block aggregation\<close>

text \<open>
  The command line of \<^verbatim>\<open>build_z2_from_z1_tiles_no_real.py\<close>. The output root is
  left out: a written file is named by its subdirectory and its file name.
\<close>

datatype name_mode = Seq | Coord

record args =
  z1_map_dir :: string
  z1_ins_dir :: string
  z1_synth_dir :: string
  z1_pseudo_real_dir :: "string option"
  block :: nat
  tile_size :: nat
  guidance_size :: nat
  tiles_per_row :: "nat option"
  order_flag :: order
  name_mode :: name_mode
  coord_digits :: "nat option"
  blank_real :: bool

text \<open>
  The file system as the scripts see it: \<^verbatim>\<open>os.listdir(dir)\<close>, taken to succeed,
  and the file behind \<^verbatim>\<open>os.path.join(dir, fname)\<close>.
\<close>

datatype 'd filesystem =
  Filesystem (listdir: "string \<Rightarrow> string list") (file_at: "string \<Rightarrow> string \<Rightarrow> 'd tile_file")

text \<open>
  \<^verbatim>\<open>ensure_sets\<close>: the sorted intersection of the PNG names of the required
  directories; the pseudo-real directory counts when it is given and not the empty
  string. An empty intersection raises \<^verbatim>\<open>SystemExit\<close>.
\<close>

definition ensure_sets ::
  "'d filesystem \<Rightarrow> string \<Rightarrow> string \<Rightarrow> string \<Rightarrow> string option \<Rightarrow> error + string list" where
  "ensure_sets fs map_dir ins_dir synth_dir pseudo_real_dir =
     (let mp = set (read_pngs_sorted (listdir fs map_dir));
          ins = set (read_pngs_sorted (listdir fs ins_dir));
          syn = set (read_pngs_sorted (listdir fs synth_dir));
          common =
            (case pseudo_real_dir of
               None \<Rightarrow> sorted_list_of_set (mp \<inter> ins \<inter> syn)
             | Some d \<Rightarrow>
                 if d \<noteq> [] then
                   sorted_list_of_set (mp \<inter> ins \<inter> syn \<inter> set (read_pngs_sorted (listdir fs d)))
                 else sorted_list_of_set (mp \<inter> ins \<inter> syn))
      in if common = []
         then Inl (SystemExit ''No common filenames across required dirs. Check inputs.'')
         else Inr common)"

text \<open>\<^verbatim>\<open>str(n)\<close> for a natural number, and zero padding to a least width as in
  the format \<^verbatim>\<open>{n:0{width}d}\<close>.\<close>

function py_str :: "nat \<Rightarrow> string" where
  "py_str n = (if n < 10 then [char_of (48 + n)]
               else py_str (n div 10) @ [char_of (48 + n mod 10)])"
  by pat_completeness auto
termination
  by (relation "measure id") auto

declare py_str.simps [simp del]

definition zfill :: "nat \<Rightarrow> string \<Rightarrow> string" where
  "zfill width s = replicate (width - length s) (CHR ''0'') @ s"

text \<open>
  Lines 145 to 167: the padding widths of coordinate naming. The sample is the
  first cell of \<open>name_grid\<close>, row by row, that holds a non-empty name. \<^verbatim>\<open>W // S\<close>
  is computed only when the sample gave no width, and raises for \<open>S = 0\<close>.
\<close>

definition first_name :: "grid \<Rightarrow> string option" where
  "first_name name_grid =
     (case List.find (\<lambda>cell. case cell of None \<Rightarrow> False | Some s \<Rightarrow> s \<noteq> []) (concat name_grid) of
        None \<Rightarrow> None
      | Some cell \<Rightarrow> cell)"

definition sample_padding :: "string option \<Rightarrow> nat \<times> nat" where
  "sample_padding sample =
     (case sample of
        None \<Rightarrow> (0, 0)
      | Some s \<Rightarrow>
          (let base = fst (splitext s);
               parts = py_split (CHR ''_'') base
           in if length parts \<ge> 2 \<and> isdigit (parts ! (length parts - 2)) \<and> isdigit (last parts)
              then (length (parts ! (length parts - 2)), length (last parts))
              else (0, 0)))"

definition floor_div :: "nat \<Rightarrow> nat \<Rightarrow> error + nat" where
  "floor_div n s = (if s = 0 then Inl ZeroDivisionError else Inr (n div s))"

definition coord_padding ::
  "name_mode \<Rightarrow> nat \<Rightarrow> nat option \<Rightarrow> nat \<Rightarrow> nat \<Rightarrow> grid \<Rightarrow> error + (nat \<times> nat)" where
  "coord_padding mode S digits W H name_grid =
     (case mode of
        Seq \<Rightarrow> Inr (0, 0)
      | Coord \<Rightarrow>
          (let (pad_x, pad_y) = sample_padding (first_name name_grid)
           in case (if pad_x = 0
                    then (case floor_div W S of
                            Inl e \<Rightarrow> Inl e
                          | Inr q \<Rightarrow> Inr (length (py_str (max 1 q))))
                    else Inr pad_x) of
                Inl e \<Rightarrow> Inl e
              | Inr pad_x \<Rightarrow>
                  (case (if pad_y = 0
                         then (case floor_div H S of
                                 Inl e \<Rightarrow> Inl e
                               | Inr q \<Rightarrow> Inr (length (py_str (max 1 q))))
                         else Inr pad_y) of
                     Inl e \<Rightarrow> Inl e
                   | Inr pad_y \<Rightarrow>
                       (case digits of
                          None \<Rightarrow> Inr (pad_x, pad_y)
                        | Some d \<Rightarrow> Inr (d, d)))))"

text \<open>
  The tiles pasted into the canvases of a block: a blank \<^verbatim>\<open>Image.new(mode, (t, t), 0)\<close>
  or a file opened and converted to the mode of its channel.
\<close>

datatype 'd tile = Blank string nat | Loaded string "nat \<times> nat" 'd

datatype 'd canvas =
  Canvas (cv_mode: string) (cv_size: "nat \<times> nat") (cv_pastes: "((nat \<times> nat) \<times> 'd tile) list")

text \<open>\<^verbatim>\<open>Image.open(os.path.join(dir, fname)).convert(mode)\<close>; \<open>None\<close> when it raises.\<close>

definition open_convert :: "'d filesystem \<Rightarrow> string \<Rightarrow> string \<Rightarrow> string \<Rightarrow> 'd tile option" where
  "open_convert fs dir fname mode =
     (case file_at fs dir fname of
        Decodable m sz d \<Rightarrow> Some (Loaded mode sz d)
      | _ \<Rightarrow> None)"

text \<open>The four blanks of the \<^verbatim>\<open>except\<close> branch, as \<open>(r, m, ins, s)\<close>.\<close>

definition blank_tiles :: "nat \<Rightarrow> 'd tile \<times> 'd tile \<times> 'd tile \<times> 'd tile" where
  "blank_tiles t = (Blank ''RGB'' t, Blank ''L'' t, Blank ''L'' t, Blank ''RGB'' t)"

text \<open>Line 169: \<^verbatim>\<open>args.z1_pseudo_real_dir or args.z1_synth_dir\<close>.\<close>

definition pseudo_real_dir :: "args \<Rightarrow> string" where
  "pseudo_real_dir a =
     (case z1_pseudo_real_dir a of
        None \<Rightarrow> z1_synth_dir a
      | Some d \<Rightarrow> if d \<noteq> [] then d else z1_synth_dir a)"

text \<open>
  Lines 199 to 212 of \<^verbatim>\<open>build_z2_from_z1_tiles_no_real.py\<close>: one \<^verbatim>\<open>try\<close> around the
  reads of the map, the instance and the synthesized tile and then of the real tile
  (or its blank); the first read that raises ends in the \<^verbatim>\<open>except\<close> branch, which
  sets all four tiles. The result is \<open>(r, m, ins, s)\<close>.
\<close>

definition read_member ::
  "'d filesystem \<Rightarrow> args \<Rightarrow> string \<Rightarrow> 'd tile \<times> 'd tile \<times> 'd tile \<times> 'd tile" where
  "read_member fs a fname =
     (let t = tile_size a
      in case open_convert fs (z1_map_dir a) fname ''L'' of
           None \<Rightarrow> blank_tiles t
         | Some m \<Rightarrow>
             (case open_convert fs (z1_ins_dir a) fname ''L'' of
                None \<Rightarrow> blank_tiles t
              | Some ins \<Rightarrow>
                  (case open_convert fs (z1_synth_dir a) fname ''RGB'' of
                     None \<Rightarrow> blank_tiles t
                   | Some s \<Rightarrow>
                       if blank_real a then (Blank ''RGB'' t, m, ins, s)
                       else (case open_convert fs (pseudo_real_dir a) fname ''RGB'' of
                               None \<Rightarrow> blank_tiles t
                             | Some r \<Rightarrow> (r, m, ins, s)))))"

text \<open>
  Lines 215 to 225 of \<^verbatim>\<open>build_z2_from_z1_tiles.py\<close>: the same \<^verbatim>\<open>try\<close>, with the real
  tile read first from its own directory.
\<close>

definition read_member_real ::
  "'d filesystem \<Rightarrow> string \<Rightarrow> string \<Rightarrow> string \<Rightarrow> string \<Rightarrow> nat \<Rightarrow> string \<Rightarrow>
   'd tile \<times> 'd tile \<times> 'd tile \<times> 'd tile" where
  "read_member_real fs real_dir map_dir ins_dir synth_dir t fname =
     (case open_convert fs real_dir fname ''RGB'' of
        None \<Rightarrow> blank_tiles t
      | Some r \<Rightarrow>
          (case open_convert fs map_dir fname ''L'' of
             None \<Rightarrow> blank_tiles t
           | Some m \<Rightarrow>
               (case open_convert fs ins_dir fname ''L'' of
                  None \<Rightarrow> blank_tiles t
                | Some ins \<Rightarrow>
                    (case open_convert fs synth_dir fname ''RGB'' of
                       None \<Rightarrow> blank_tiles t
                     | Some s \<Rightarrow> (r, m, ins, s)))))"

text \<open>
  The reading of the member step in which every channel is on its own, for
  comparison with the code: a channel whose file reads is loaded, one whose read
  fails is blank.
\<close>

definition channel_tile :: "'d filesystem \<Rightarrow> string \<Rightarrow> string \<Rightarrow> string \<Rightarrow> nat \<Rightarrow> 'd tile" where
  "channel_tile fs dir fname mode t =
     (case open_convert fs dir fname mode of None \<Rightarrow> Blank mode t | Some tile \<Rightarrow> tile)"

definition read_member_independent ::
  "'d filesystem \<Rightarrow> string \<Rightarrow> string \<Rightarrow> string \<Rightarrow> string \<Rightarrow> nat \<Rightarrow> string \<Rightarrow>
   'd tile \<times> 'd tile \<times> 'd tile \<times> 'd tile" where
  "read_member_independent fs real_dir map_dir ins_dir synth_dir t fname =
     (channel_tile fs real_dir fname ''RGB'' t, channel_tile fs map_dir fname ''L'' t,
      channel_tile fs ins_dir fname ''L'' t, channel_tile fs synth_dir fname ''RGB'' t)"

text \<open>\<^verbatim>\<open>canvas.paste(tile, offset)\<close>\<close>

definition paste :: "'d canvas \<Rightarrow> 'd tile \<Rightarrow> nat \<times> nat \<Rightarrow> 'd canvas" where
  "paste cv tile offset = Canvas (cv_mode cv) (cv_size cv) (cv_pastes cv @ [(offset, tile)])"

text \<open>
  The body of the member loop (\<^verbatim>\<open>for j\<close>, \<^verbatim>\<open>for i\<close>) on the four canvases
  \<open>(real_big, map_big, ins_big, syn_big)\<close>, for any reader of an existing tile.
\<close>

definition compose_member ::
  "(string \<Rightarrow> 'd tile \<times> 'd tile \<times> 'd tile \<times> 'd tile) \<Rightarrow> nat \<Rightarrow> nat \<Rightarrow> nat \<Rightarrow> grid \<Rightarrow>
   nat \<Rightarrow> nat \<Rightarrow> nat \<times> nat \<Rightarrow>
   'd canvas \<times> 'd canvas \<times> 'd canvas \<times> 'd canvas \<Rightarrow>
   'd canvas \<times> 'd canvas \<times> 'd canvas \<times> 'd canvas" where
  "compose_member reader t W H name_grid bx by = (\<lambda>(j, i) (real_big, map_big, ins_big, syn_big).
     let gx = bx + i;
         gy = by + j;
         fname = (if gx \<ge> W \<or> gy \<ge> H then None else name_grid ! gy ! gx)
     in case fname of
          None \<Rightarrow>
            (paste real_big (Blank ''RGB'' t) (i * t, j * t),
             paste map_big (Blank ''L'' t) (i * t, j * t),
             paste ins_big (Blank ''L'' t) (i * t, j * t),
             paste syn_big (Blank ''RGB'' t) (i * t, j * t))
        | Some f \<Rightarrow>
            (case reader f of (r, m, ins, s) \<Rightarrow>
               (paste real_big r (i * t, j * t),
                paste map_big m (i * t, j * t),
                paste ins_big ins (i * t, j * t),
                paste syn_big s (i * t, j * t))))"

definition compose_block ::
  "(string \<Rightarrow> 'd tile \<times> 'd tile \<times> 'd tile \<times> 'd tile) \<Rightarrow> nat \<Rightarrow> nat \<Rightarrow> nat \<Rightarrow> nat \<Rightarrow> grid \<Rightarrow>
   nat \<Rightarrow> nat \<Rightarrow> 'd canvas \<times> 'd canvas \<times> 'd canvas \<times> 'd canvas" where
  "compose_block reader S t W H name_grid bx by =
     fold (compose_member reader t W H name_grid bx by) (row_major S S)
       (Canvas ''RGB'' (S * t, S * t) [], Canvas ''L'' (S * t, S * t) [],
        Canvas ''L'' (S * t, S * t) [], Canvas ''RGB'' (S * t, S * t) [])"

text \<open>
  A downsampled image, \<^verbatim>\<open>canvas.resize(size, resample)\<close>. The library returns a copy
  when the size does not change, and otherwise refuses a size with a zero side
  (\<^verbatim>\<open>ValueError\<close>).
\<close>

datatype 'd out_image = Resized "'d canvas" "nat \<times> nat" string

definition resize :: "'d canvas \<Rightarrow> nat \<times> nat \<Rightarrow> string \<Rightarrow> error + 'd out_image" where
  "resize cv sz resample =
     (if cv_size cv \<noteq> sz \<and> (fst sz = 0 \<or> snd sz = 0) then Inl ValueError
      else Inr (Resized cv sz resample))"

text \<open>
  The files written so far, each with its subdirectory and file name, and
  \<^verbatim>\<open>img.save(os.path.join(root, subdir, stem))\<close>: the library refuses to write an
  image without pixels (its exception is given here as \<^verbatim>\<open>ValueError\<close>; the run ends
  with exit status 1 whatever its class); writing any other image under a name
  that ends in \<^verbatim>\<open>.png\<close> is taken to succeed. An error carries the files written
  before it.
\<close>

type_synonym 'd written = "(string \<times> string \<times> 'd out_image) list"

definition save ::
  "'d out_image \<Rightarrow> string \<Rightarrow> string \<Rightarrow> 'd written \<Rightarrow> (error \<times> 'd written) + 'd written" where
  "save img subdir stem writes =
     (case img of
        Resized cv (w, h) resample \<Rightarrow>
          if w = 0 \<or> h = 0 then Inl (ValueError, writes)
          else Inr (writes @ [(subdir, stem, img)]))"

text \<open>Lines 224 to 229: the file name of a block.\<close>

definition block_stem :: "name_mode \<Rightarrow> nat \<Rightarrow> nat \<Rightarrow> nat \<Rightarrow> nat \<Rightarrow> nat \<Rightarrow> nat \<Rightarrow> string" where
  "block_stem mode S pad_x pad_y bx by count =
     (case mode of
        Coord \<Rightarrow>
          (let mx = bx div S; my = by div S
           in zfill pad_x (py_str mx) @ ''_'' @ zfill pad_y (py_str my) @ ''.png'')
      | Seq \<Rightarrow> zfill 5 (py_str count) @ ''.png'')"

text \<open>\<^verbatim>\<open>range(0, stop, step)\<close> for a positive step, and the blocks in the order of
  \<^verbatim>\<open>for by in range(0, H, S): for bx in range(0, W, S)\<close>, each as \<open>(by, bx)\<close>.\<close>

definition range_step :: "nat \<Rightarrow> nat \<Rightarrow> nat list" where
  "range_step stop step = map (\<lambda>k. k * step) [0..<(stop + step - 1) div step]"

definition blocks :: "nat \<Rightarrow> nat \<Rightarrow> nat \<Rightarrow> (nat \<times> nat) list" where
  "blocks W H S = concat (map (\<lambda>by. map (\<lambda>bx. (by, bx)) (range_step W S)) (range_step H S))"

text \<open>
  Lines 181 to 235, the body of the block loop, on the files written so far and the
  counter \<open>count\<close>: the four canvases are composed and downsampled, then the four
  images are saved under one stem, then \<open>count\<close> goes up. The first call that
  raises ends the run.
\<close>

definition block_step ::
  "(string \<Rightarrow> 'd tile \<times> 'd tile \<times> 'd tile \<times> 'd tile) \<Rightarrow> name_mode \<Rightarrow> nat \<Rightarrow> nat \<Rightarrow> nat \<Rightarrow>
   nat \<Rightarrow> nat \<Rightarrow> grid \<Rightarrow> nat \<Rightarrow> nat \<Rightarrow> nat \<times> nat \<Rightarrow>
   'd written \<times> nat \<Rightarrow> (error \<times> 'd written) + ('d written \<times> nat)" where
  "block_step reader mode S t g W H name_grid pad_x pad_y = (\<lambda>(by, bx) (writes, count).
     case compose_block reader S t W H name_grid bx by of
       (real_big, map_big, ins_big, syn_big) \<Rightarrow>
     (case resize real_big (t, t) ''LANCZOS'' of
        Inl e \<Rightarrow> Inl (e, writes)
      | Inr real_out \<Rightarrow>
     (case resize map_big (t, t) ''NEAREST'' of
        Inl e \<Rightarrow> Inl (e, writes)
      | Inr map_out \<Rightarrow>
     (case resize ins_big (t, t) ''NEAREST'' of
        Inl e \<Rightarrow> Inl (e, writes)
      | Inr ins_out \<Rightarrow>
     (case resize syn_big (g, g) ''LANCZOS'' of
        Inl e \<Rightarrow> Inl (e, writes)
      | Inr guid_out \<Rightarrow>
     (let stem = block_stem mode S pad_x pad_y bx by count
      in case save real_out ''real'' stem writes of
           Inl r \<Rightarrow> Inl r
         | Inr writes1 \<Rightarrow>
        (case save map_out ''map'' stem writes1 of
           Inl r \<Rightarrow> Inl r
         | Inr writes2 \<Rightarrow>
        (case save ins_out ''ins'' stem writes2 of
           Inl r \<Rightarrow> Inl r
         | Inr writes3 \<Rightarrow>
        (case save guid_out ''guidance'' stem writes3 of
           Inl r \<Rightarrow> Inl r
         | Inr writes4 \<Rightarrow> Inr (writes4, count + 1))))))))))"

text \<open>A \<^verbatim>\<open>for\<close> loop whose body may raise: the first error ends it.\<close>

fun for_each :: "('b \<Rightarrow> 's \<Rightarrow> 'e + 's) \<Rightarrow> 'b list \<Rightarrow> 's \<Rightarrow> 'e + 's" where
  "for_each body [] s = Inr s"
| "for_each body (b # bs) s =
     (case body b s of
        Inl e \<Rightarrow> Inl e
      | Inr s' \<Rightarrow> for_each body bs s')"

text \<open>
  Lines 179 to 235 of \<^verbatim>\<open>build_z2_from_z1_tiles_no_real.py\<close>, the block loop. A zero
  step makes \<^verbatim>\<open>range\<close> raise \<^verbatim>\<open>ValueError\<close> before the first block.
\<close>

definition process_blocks ::
  "(string \<Rightarrow> 'd tile \<times> 'd tile \<times> 'd tile \<times> 'd tile) \<Rightarrow> name_mode \<Rightarrow> nat \<Rightarrow> nat \<Rightarrow> nat \<Rightarrow>
   nat \<Rightarrow> nat \<Rightarrow> grid \<Rightarrow> nat \<Rightarrow> nat \<Rightarrow> (error \<times> 'd written) + ('d written \<times> nat)" where
  "process_blocks reader mode S t g W H name_grid pad_x pad_y =
     (if S = 0 then Inl (ValueError, [])
      else for_each (block_step reader mode S t g W H name_grid pad_x pad_y) (blocks W H S) ([], 0))"

text \<open>
  Lines 184 to 249 of \<^verbatim>\<open>build_z2_from_z1_tiles.py\<close>: the same loop, after the two
  divisions \<^verbatim>\<open>(W + S - 1) // S\<close> and \<^verbatim>\<open>(H + S - 1) // S\<close> of lines 185 and 186, which
  raise \<^verbatim>\<open>ZeroDivisionError\<close> for a zero block factor.
\<close>

definition process_blocks_real ::
  "(string \<Rightarrow> 'd tile \<times> 'd tile \<times> 'd tile \<times> 'd tile) \<Rightarrow> name_mode \<Rightarrow> nat \<Rightarrow> nat \<Rightarrow> nat \<Rightarrow>
   nat \<Rightarrow> nat \<Rightarrow> grid \<Rightarrow> nat \<Rightarrow> nat \<Rightarrow> (error \<times> 'd written) + ('d written \<times> nat)" where
  "process_blocks_real reader mode S t g W H name_grid pad_x pad_y =
     (case floor_div (W + S - 1) S of
        Inl e \<Rightarrow> Inl (e, [])
      | Inr mosaic_x_max \<Rightarrow>
          (case floor_div (H + S - 1) S of
             Inl e \<Rightarrow> Inl (e, [])
           | Inr mosaic_y_max \<Rightarrow>
               process_blocks reader mode S t g W H name_grid pad_x pad_y))"

text \<open>
  \<^verbatim>\<open>main\<close> of \<^verbatim>\<open>build_z2_from_z1_tiles_no_real.py\<close>: the image files written, in
  order, and how the run ended. Creating the four output directories (which are
  not image files) is taken to succeed. An uncaught exception and \<^verbatim>\<open>SystemExit\<close>
  with a message both end the process with exit status 1.
\<close>

datatype outcome = Completed | Aborted error


definition main :: "'d filesystem \<Rightarrow> args \<Rightarrow> 'd written \<times> outcome" where
  "main fs a =
     (let t = tile_size a; g = guidance_size a; S = block a
      in case ensure_sets fs (z1_map_dir a) (z1_ins_dir a) (z1_synth_dir a) (z1_pseudo_real_dir a) of
           Inl e \<Rightarrow> ([], Aborted e)
         | Inr common \<Rightarrow>
             (case build_name_grid S (tiles_per_row a) (order_flag a) common of
                Inl e \<Rightarrow> ([], Aborted e)
              | Inr (common_ordered, W, H, name_grid) \<Rightarrow>
                  (case coord_padding (name_mode a) S (coord_digits a) W H name_grid of
                     Inl e \<Rightarrow> ([], Aborted e)
                   | Inr (pad_x, pad_y) \<Rightarrow>
                       (case process_blocks (read_member fs a) (name_mode a) S t g W H name_grid
                               pad_x pad_y of
                          Inl (e, writes) \<Rightarrow> (writes, Aborted e)
                        | Inr (writes, count) \<Rightarrow> (writes, Completed)))))"

text \<open>
  The four files of a block in the order of their \<^verbatim>\<open>save\<close> calls, which share
  \<open>stem\<close>; used to state properties.
\<close>

definition block_writes ::
  "string \<Rightarrow> 'd canvas \<times> 'd canvas \<times> 'd canvas \<times> 'd canvas \<Rightarrow> nat \<Rightarrow> nat \<Rightarrow> 'd written" where
  "block_writes stem canvases t g =
     (case canvases of (real_big, map_big, ins_big, syn_big) \<Rightarrow>
        [(''real'', stem, Resized real_big (t, t) ''LANCZOS''),
         (''map'', stem, Resized map_big (t, t) ''NEAREST''),
         (''ins'', stem, Resized ins_big (t, t) ''NEAREST''),
         (''guidance'', stem, Resized syn_big (g, g) ''LANCZOS'')])"

text \<open>
  The four tiles that the member loop pastes for the grid position \<open>(gx, gy)\<close>, and
  the set that \<^verbatim>\<open>ensure_sets\<close> intersects; both used to state properties.
\<close>

definition member_tiles ::
  "(string \<Rightarrow> 'd tile \<times> 'd tile \<times> 'd tile \<times> 'd tile) \<Rightarrow> nat \<Rightarrow> nat \<Rightarrow> nat \<Rightarrow> grid \<Rightarrow>
   nat \<Rightarrow> nat \<Rightarrow> 'd tile \<times> 'd tile \<times> 'd tile \<times> 'd tile" where
  "member_tiles reader t W H name_grid gx gy =
     (case (if gx \<ge> W \<or> gy \<ge> H then None else name_grid ! gy ! gx) of
        None \<Rightarrow> blank_tiles t
      | Some f \<Rightarrow> reader f)"

definition common_names :: "'d filesystem \<Rightarrow> args \<Rightarrow> string set" where
  "common_names fs a =
     set (read_pngs_sorted (listdir fs (z1_map_dir a))) \<inter>
     set (read_pngs_sorted (listdir fs (z1_ins_dir a))) \<inter>
     set (read_pngs_sorted (listdir fs (z1_synth_dir a))) \<inter>
     (case z1_pseudo_real_dir a of
        None \<Rightarrow> UNIV
      | Some d \<Rightarrow> if d \<noteq> [] then set (read_pngs_sorted (listdir fs d)) else UNIV)"

text \<open>The subdirectory and file name of each written file.\<close>

definition written_names :: "'d written \<Rightarrow> (string \<times> string) list" where
  "written_names writes = map (\<lambda>(subdir, name, image). (subdir, name)) writes"


text \<open>Example inputs, used in the concrete runs below.\<close>

definition example_args :: args where
  "example_args =
     \<lparr>z1_map_dir = ''map'', z1_ins_dir = ''ins'', z1_synth_dir = ''synth'',
      z1_pseudo_real_dir = None, block = 3, tile_size = 256, guidance_size = 64,
      tiles_per_row = None, order_flag = Row, name_mode = Coord, coord_digits = None,
      blank_real = False\<rparr>"


definition map_unreadable_fs :: "string filesystem" where
  "map_unreadable_fs =
     Filesystem (\<lambda>dir. [''a_0_0.png''])
       (\<lambda>dir fname. if dir = ''map'' then Unreadable
                     else Decodable ''RGB'' (256, 256) (dir @ ''/'' @ fname))"


definition far_tile_fs :: "string filesystem" where
  "far_tile_fs = Filesystem (\<lambda>dir. [''a_0_100000.png'']) (\<lambda>dir fname. Unreadable)"


definition four_tiles_fs :: "string filesystem" where
  "four_tiles_fs =
     Filesystem (\<lambda>dir. [''t_0_0.png'', ''t_0_1.png'', ''t_1_0.png'', ''t_1_1.png''])
       (\<lambda>dir fname. Decodable ''RGB'' (256, 256) (dir @ ''/'' @ fname))"


text \<open>A name whose first coordinate segment is the superscript digit U+00B2.\<close>

definition superscript_name :: string where
  "superscript_name = ''a_'' @ [CHR 0xB2] @ ''_3.png''"

definition superscript_fs :: "string filesystem" where
  "superscript_fs =
     Filesystem (\<lambda>dir. [''a_0_0.png'', superscript_name])
       (\<lambda>dir fname. Decodable ''RGB'' (256, 256) (dir @ ''/'' @ fname))"


section \<open>Properties of the primitives\<close>

lemma py_split_nonempty: "py_split d s \<noteq> []"
  by (induction s) (auto split: list.splits)

lemma py_split_no_delim: "d \<notin> set s \<Longrightarrow> py_split d s = [s]"
  by (induction s) auto

lemma py_split_append_delim: "py_split d (a @ d # b) = py_split d a @ py_split d b"
  by (induction a) (auto split: list.splits simp: py_split_nonempty)

lemma py_join_Cons: "py_join d ((c # s) # ss) = c # py_join d (s # ss)"
  by (cases ss) auto

lemma py_join_split: "py_join d (py_split d s) = s"
proof (induction s)
  case Nil
  then show ?case by simp
next
  case (Cons c cs)
  obtain t ts where ts: "py_split d cs = t # ts"
    using py_split_nonempty [of d cs] by (cases "py_split d cs") auto
  show ?case using Cons ts by (auto simp: py_join_Cons)
qed

lemma py_split_segments: "seg \<in> set (py_split d s) \<Longrightarrow> d \<notin> set seg"
  by (induction s arbitrary: seg) (auto split: if_splits list.splits)

lemma py_join_snoc2:
  "py_join d (ss @ [X, Y]) = (if ss = [] then [] else py_join d ss @ [d]) @ X @ d # Y"
  by (induction d ss rule: py_join.induct) auto

lemma is_decimal_char_iff: "is_decimal_char c \<longleftrightarrow> c \<in> set ''0123456789''"
proof
  assume a: "is_decimal_char c"
  define n where "n = (of_char c :: nat)"
  have "n = 48 \<or> n = 49 \<or> n = 50 \<or> n = 51 \<or> n = 52 \<or> n = 53 \<or> n = 54 \<or> n = 55 \<or> n = 56 \<or> n = 57"
    using a unfolding is_decimal_char_def n_def by arith
  then have "n = of_char (CHR ''0'') \<or> n = of_char (CHR ''1'') \<or> n = of_char (CHR ''2'') \<or>
      n = of_char (CHR ''3'') \<or> n = of_char (CHR ''4'') \<or> n = of_char (CHR ''5'') \<or>
      n = of_char (CHR ''6'') \<or> n = of_char (CHR ''7'') \<or> n = of_char (CHR ''8'') \<or>
      n = of_char (CHR ''9'')"
    by simp
  then show "c \<in> set ''0123456789''"
    unfolding n_def of_char_eq_iff by simp
next
  assume "c \<in> set ''0123456789''"
  then show "is_decimal_char c" by (auto simp: is_decimal_char_def)
qed

lemma isdecimal_iff: "isdecimal s \<longleftrightarrow> s \<noteq> [] \<and> set s \<subseteq> set ''0123456789''"
  unfolding isdecimal_def list_all_iff using is_decimal_char_iff by blast

lemma isdecimal_isdigit: "isdecimal s \<Longrightarrow> isdigit s"
  by (simp add: isdecimal_def isdigit_def is_digit_char_def list_all_iff)

lemma is_digit_char_not_underscore: "is_digit_char c \<Longrightarrow> c \<noteq> CHR ''_''"
  by (auto simp: is_digit_char_def is_decimal_char_def)

lemma isdigit_no_underscore: "isdigit s \<Longrightarrow> CHR ''_'' \<notin> set s"
  using is_digit_char_not_underscore by (auto simp: isdigit_def list_all_iff)

lemma is_digit_char_ascii: "(of_char c :: nat) < 128 \<Longrightarrow> is_digit_char c \<longleftrightarrow> is_decimal_char c"
  by (auto simp: is_digit_char_def)

lemma isdigit_ascii: "\<forall>c \<in> set s. (of_char c :: nat) < 128 \<Longrightarrow> isdigit s \<longleftrightarrow> isdecimal s"
  by (auto simp: isdigit_def isdecimal_def list_all_iff is_digit_char_ascii)

lemma py_int_cases:
  "isdigit s \<Longrightarrow> py_int s = (if isdecimal s then Inr (decimal_value s) else Inl ValueError)"
  by (simp add: py_int_def)

lemma parts_last_two:
  assumes "2 \<le> length parts"
  shows "\<exists>ss. parts = ss @ [parts ! (length parts - 2), last parts]"
proof -
  from assms obtain ps Y where 1: "parts = ps @ [Y]"
    by (cases parts rule: rev_cases) auto
  with assms obtain ss X where 2: "ps = ss @ [X]"
    by (cases ps rule: rev_cases) auto
  show ?thesis unfolding 1 2 by (auto simp: nth_append)
qed

lemma last_two_segments:
  "(\<exists>pre. base = pre @ X @ CHR ''_'' # Y \<and> (pre = [] \<or> last pre = CHR ''_'') \<and>
          CHR ''_'' \<notin> set X \<and> CHR ''_'' \<notin> set Y) \<longleftrightarrow>
   (2 \<le> length (py_split (CHR ''_'') base) \<and>
    py_split (CHR ''_'') base ! (length (py_split (CHR ''_'') base) - 2) = X \<and>
    last (py_split (CHR ''_'') base) = Y)"
  (is "?L \<longleftrightarrow> ?R")
proof
  assume ?L
  then obtain pre where base: "base = pre @ X @ CHR ''_'' # Y"
    and pre: "pre = [] \<or> last pre = CHR ''_''"
    and nX: "CHR ''_'' \<notin> set X" and nY: "CHR ''_'' \<notin> set Y"
    by blast
  have "\<exists>ss. py_split (CHR ''_'') (pre @ X) = ss @ [X]"
  proof (cases "pre = []")
    case True
    then show ?thesis using nX by (simp add: py_split_no_delim)
  next
    case False
    with pre obtain p where "pre = p @ [CHR ''_'']"
      by (cases pre rule: rev_cases) auto
    then show ?thesis using nX by (simp add: py_split_append_delim py_split_no_delim)
  qed
  then obtain ss where ss: "py_split (CHR ''_'') (pre @ X) = ss @ [X]" ..
  have "py_split (CHR ''_'') base = ss @ [X, Y]"
    using py_split_append_delim [of "CHR ''_''" "pre @ X" Y] ss nY
    by (simp add: base py_split_no_delim)
  then show ?R by (simp add: nth_append)
next
  assume R: ?R
  define parts where "parts = py_split (CHR ''_'') base"
  from R have len: "2 \<le> length parts" and X: "parts ! (length parts - 2) = X"
    and Y: "last parts = Y"
    unfolding parts_def by simp_all
  from parts_last_two [OF len] obtain ss where ss: "parts = ss @ [X, Y]"
    unfolding X Y ..
  define pre where "pre = (if ss = [] then [] else py_join (CHR ''_'') ss @ [CHR ''_''])"
  have "base = py_join (CHR ''_'') parts"
    unfolding parts_def by (simp add: py_join_split)
  also have "\<dots> = pre @ X @ CHR ''_'' # Y"
    by (subst ss) (simp only: py_join_snoc2 pre_def)
  finally have b: "base = pre @ X @ CHR ''_'' # Y" .
  have p: "pre = [] \<or> last pre = CHR ''_''" by (simp add: pre_def)
  have "X \<in> set parts" "Y \<in> set parts" unfolding ss by simp_all
  then have n: "CHR ''_'' \<notin> set X" "CHR ''_'' \<notin> set Y"
    unfolding parts_def by (auto dest: py_split_segments)
  show ?L using b p n by blast
qed

lemma parse_xy_from_name_segments:
  assumes "fst (splitext name) = pre @ X @ CHR ''_'' # Y" and "pre = [] \<or> last pre = CHR ''_''"
    and "isdigit X" and "isdigit Y"
  shows "parse_xy_from_name name =
     (if isdecimal X \<and> isdecimal Y then Inr (Some (decimal_value X, decimal_value Y))
      else Inl ValueError)"
proof -
  have "\<exists>pre. fst (splitext name) = pre @ X @ CHR ''_'' # Y \<and> (pre = [] \<or> last pre = CHR ''_'') \<and>
          CHR ''_'' \<notin> set X \<and> CHR ''_'' \<notin> set Y"
    using assms by (auto simp: isdigit_no_underscore)
  then have "2 \<le> length (py_split (CHR ''_'') (fst (splitext name))) \<and>
    py_split (CHR ''_'') (fst (splitext name)) ! (length (py_split (CHR ''_'') (fst (splitext name))) - 2) = X \<and>
    last (py_split (CHR ''_'') (fst (splitext name))) = Y"
    by (simp only: last_two_segments)
  then show ?thesis
    using assms(3,4) by (simp add: parse_xy_from_name_def Let_def py_int_def)
qed

lemma parse_xy_from_name_no_segments:
  assumes "\<not> (\<exists>pre X Y. fst (splitext name) = pre @ X @ CHR ''_'' # Y \<and>
              (pre = [] \<or> last pre = CHR ''_'') \<and> isdigit X \<and> isdigit Y)"
  shows "parse_xy_from_name name = Inr None"
proof -
  define parts where "parts = py_split (CHR ''_'') (fst (splitext name))"
  have "\<not> (isdigit (parts ! (length parts - 2)) \<and> isdigit (last parts))" if len: "2 \<le> length parts"
  proof
    assume d: "isdigit (parts ! (length parts - 2)) \<and> isdigit (last parts)"
    have "\<exists>pre. fst (splitext name) = pre @ parts ! (length parts - 2) @ CHR ''_'' # last parts \<and>
        (pre = [] \<or> last pre = CHR ''_'') \<and>
        CHR ''_'' \<notin> set (parts ! (length parts - 2)) \<and> CHR ''_'' \<notin> set (last parts)"
      unfolding last_two_segments using len by (simp add: parts_def)
    with d assms show False by blast
  qed
  then show ?thesis
    by (auto simp: parse_xy_from_name_def Let_def parts_def [symmetric])
qed

lemma parse_xy_from_name_Some_iff:
  "parse_xy_from_name name = Inr (Some (x, y)) \<longleftrightarrow>
     (\<exists>pre X Y. fst (splitext name) = pre @ X @ CHR ''_'' # Y \<and>
        (pre = [] \<or> last pre = CHR ''_'') \<and> isdecimal X \<and> isdecimal Y \<and>
        x = decimal_value X \<and> y = decimal_value Y)"
  (is "?L \<longleftrightarrow> ?R")
proof
  assume L: ?L
  then have "\<exists>pre X Y. fst (splitext name) = pre @ X @ CHR ''_'' # Y \<and>
              (pre = [] \<or> last pre = CHR ''_'') \<and> isdigit X \<and> isdigit Y"
    using parse_xy_from_name_no_segments [of name] by auto
  then obtain pre X Y where s: "fst (splitext name) = pre @ X @ CHR ''_'' # Y"
      "pre = [] \<or> last pre = CHR ''_''" "isdigit X" "isdigit Y"
    by blast
  from L have "isdecimal X \<and> isdecimal Y \<and> x = decimal_value X \<and> y = decimal_value Y"
    unfolding parse_xy_from_name_segments [OF s] by (simp split: if_splits)
  with s(1,2) show ?R by blast
next
  assume ?R
  then obtain pre X Y where s: "fst (splitext name) = pre @ X @ CHR ''_'' # Y"
      "pre = [] \<or> last pre = CHR ''_''" and d: "isdecimal X" "isdecimal Y"
    and xy: "x = decimal_value X" "y = decimal_value Y"
    by blast
  show ?L
    using parse_xy_from_name_segments [OF s isdecimal_isdigit [OF d(1)] isdecimal_isdigit [OF d(2)]] d xy
    by simp
qed

lemma parse_xy_from_name_None_iff:
  "parse_xy_from_name name = Inr None \<longleftrightarrow>
     \<not> (\<exists>pre X Y. fst (splitext name) = pre @ X @ CHR ''_'' # Y \<and>
          (pre = [] \<or> last pre = CHR ''_'') \<and> isdigit X \<and> isdigit Y)"
  (is "?L \<longleftrightarrow> \<not> ?E")
proof
  assume L: ?L
  show "\<not> ?E"
  proof
    assume ?E
    then obtain pre X Y where s: "fst (splitext name) = pre @ X @ CHR ''_'' # Y"
        "pre = [] \<or> last pre = CHR ''_''" "isdigit X" "isdigit Y"
      by blast
    from L show False unfolding parse_xy_from_name_segments [OF s] by (simp split: if_splits)
  qed
next
  assume "\<not> ?E"
  then show ?L by (rule parse_xy_from_name_no_segments)
qed

lemma parse_xy_from_name_error_iff:
  "parse_xy_from_name name = Inl e \<longleftrightarrow>
     e = ValueError \<and>
     (\<exists>pre X Y. fst (splitext name) = pre @ X @ CHR ''_'' # Y \<and>
        (pre = [] \<or> last pre = CHR ''_'') \<and> isdigit X \<and> isdigit Y \<and>
        \<not> (isdecimal X \<and> isdecimal Y))"
  (is "?L \<longleftrightarrow> ?R")
proof
  assume L: ?L
  then have "\<exists>pre X Y. fst (splitext name) = pre @ X @ CHR ''_'' # Y \<and>
              (pre = [] \<or> last pre = CHR ''_'') \<and> isdigit X \<and> isdigit Y"
    using parse_xy_from_name_no_segments [of name] by auto
  then obtain pre X Y where s: "fst (splitext name) = pre @ X @ CHR ''_'' # Y"
      "pre = [] \<or> last pre = CHR ''_''" "isdigit X" "isdigit Y"
    by blast
  from L have "e = ValueError \<and> \<not> (isdecimal X \<and> isdecimal Y)"
    unfolding parse_xy_from_name_segments [OF s] by (simp split: if_splits)
  with s show ?R by blast
next
  assume ?R
  then obtain pre X Y where s: "fst (splitext name) = pre @ X @ CHR ''_'' # Y"
      "pre = [] \<or> last pre = CHR ''_''" "isdigit X" "isdigit Y"
    and n: "\<not> (isdecimal X \<and> isdecimal Y)" and e: "e = ValueError"
    by blast
  show ?L unfolding parse_xy_from_name_segments [OF s] using n e by simp
qed

lemma parse_xy_from_name_error: "parse_xy_from_name name = Inl e \<Longrightarrow> e = ValueError"
  by (simp add: parse_xy_from_name_error_iff)

lemma set_splitext: "set (fst (splitext p)) \<subseteq> set p"
  by (auto simp: splitext_def Let_def dest: in_set_takeD)

lemma parse_xy_from_name_ascii:
  assumes "\<forall>c \<in> set name. (of_char c :: nat) < 128"
  shows "parse_xy_from_name name \<noteq> Inl e"
proof
  assume "parse_xy_from_name name = Inl e"
  then obtain pre X Y where s: "fst (splitext name) = pre @ X @ CHR ''_'' # Y"
      "isdigit X" "isdigit Y" and n: "\<not> (isdecimal X \<and> isdecimal Y)"
    unfolding parse_xy_from_name_error_iff by blast
  have "set X \<subseteq> set name" "set Y \<subseteq> set name"
    using set_splitext [of name] unfolding s(1) by auto
  then have "\<forall>c \<in> set X. (of_char c :: nat) < 128" "\<forall>c \<in> set Y. (of_char c :: nat) < 128"
    using assms by auto
  then have "isdecimal X" "isdecimal Y"
    using s(2,3) by (simp_all add: isdigit_ascii)
  with n show False by simp
qed

lemma rfind_from_notin: "c \<notin> set s \<Longrightarrow> rfind_from c s i f = f"
  by (induction s arbitrary: i f) auto

lemma rfind_from_append_notin: "c \<notin> set b \<Longrightarrow> rfind_from c (a @ b) i f = rfind_from c a i f"
  by (induction a arbitrary: i f) (auto simp: rfind_from_notin)

lemma rfind_from_last: "c \<notin> set b \<Longrightarrow> rfind_from c (a @ c # b) i f = i + int (length a)"
  by (induction a arbitrary: i f) (auto simp: rfind_from_notin)

lemma rfind_from_range:
  "rfind_from c s i f = f \<or> (i \<le> rfind_from c s i f \<and> rfind_from c s i f < i + int (length s))"
proof (induction s arbitrary: i f)
  case Nil
  then show ?case by simp
next
  case (Cons d ds)
  show ?case
    using Cons [of "i + 1" "if d = c then i else f"] by (auto split: if_splits)
qed

lemma rfind_range: "- 1 \<le> rfind c s \<and> rfind c s < int (length s)"
  using rfind_from_range [of c s 0 "- 1"] by (auto simp: rfind_def)

lemma splitext_strip:
  assumes "CHR ''.'' \<notin> set ext" "CHR ''/'' \<notin> set ext" "c \<noteq> CHR ''.''" "c \<noteq> CHR ''/''"
  shows "splitext (stem @ c # CHR ''.'' # ext) = (stem @ [c], CHR ''.'' # ext)"
proof -
  let ?p = "stem @ c # CHR ''.'' # ext"
  have dot: "rfind (CHR ''.'') ?p = int (length stem) + 1"
    using rfind_from_last [of "CHR ''.''" ext "stem @ [c]" 0 "- 1"] assms(1)
    by (simp add: rfind_def)
  have sep: "rfind (CHR ''/'') ?p = rfind (CHR ''/'') stem"
    using rfind_from_append_notin [of "CHR ''/''" "c # CHR ''.'' # ext" stem 0 "- 1"] assms(2,4)
    by (simp add: rfind_def)
  define m where "m = nat (rfind (CHR ''/'') stem + 1)"
  have m: "m \<le> length stem" and lt: "rfind (CHR ''/'') stem < int (length stem) + 1"
    using rfind_range [of "CHR ''/''" stem] by (auto simp: m_def)
  have slice: "take (nat (int (length stem) + 1) - m) (drop m ?p) = drop m stem @ [c]"
    using m by (simp add: nat_add_distrib)
  show ?thesis
    unfolding splitext_def Let_def dot sep
    using lt assms(3) slice m by (simp add: m_def nat_add_distrib)
qed

lemma parse_xy_from_name_pattern:
  assumes "isdecimal X" "isdecimal Y" "CHR ''.'' \<notin> set ext" "CHR ''/'' \<notin> set ext"
  shows "parse_xy_from_name (prefix @ CHR ''_'' # X @ CHR ''_'' # Y @ CHR ''.'' # ext)
           = Inr (Some (decimal_value X, decimal_value Y))"
proof -
  from assms(2) obtain Y' c where Y: "Y = Y' @ [c]"
    by (cases Y rule: rev_cases) (auto simp: isdecimal_def)
  have c: "c \<noteq> CHR ''.''" "c \<noteq> CHR ''/''"
    using assms(2) unfolding Y by (auto simp: isdecimal_iff)
  have "splitext ((prefix @ CHR ''_'' # X @ CHR ''_'' # Y') @ c # CHR ''.'' # ext)
          = ((prefix @ CHR ''_'' # X @ CHR ''_'' # Y') @ [c], CHR ''.'' # ext)"
    using assms(3,4) c by (rule splitext_strip)
  then have b: "fst (splitext (prefix @ CHR ''_'' # X @ CHR ''_'' # Y @ CHR ''.'' # ext))
          = (prefix @ [CHR ''_'']) @ X @ CHR ''_'' # Y"
    by (simp add: Y)
  have p: "prefix @ [CHR ''_''] = [] \<or> last (prefix @ [CHR ''_'']) = CHR ''_''"
    by simp
  show ?thesis
    using parse_xy_from_name_segments
      [OF b p isdecimal_isdigit [OF assms(1)] isdecimal_isdigit [OF assms(2)]] assms(1,2)
    by simp
qed


lemma decimal_value_snoc: "decimal_value (s @ [c]) = 10 * decimal_value s + (of_char c - 48)"
  by (simp add: decimal_value_def)

section \<open>Properties of coordinate inference\<close>

lemma well_shaped_empty: "well_shaped w h (empty_grid w h)"
  by (simp add: well_shaped_def empty_grid_def)

lemma well_shaped_set_cell:
  assumes "well_shaped w h g"
  shows "well_shaped w h (set_cell g y x f)"
proof (cases "y < length g")
  case True
  then show ?thesis
    using assms unfolding well_shaped_def set_cell_def
    by (auto dest!: set_update_subset_insert [THEN subsetD])
next
  case False
  then show ?thesis using assms by (simp add: well_shaped_def set_cell_def list_update_beyond)
qed

lemma set_cell_nth:
  "well_shaped w h g \<Longrightarrow> y < h \<Longrightarrow> x < w \<Longrightarrow> y' < h \<Longrightarrow> x' < w \<Longrightarrow>
   set_cell g y x f ! y' ! x' = (if y' = y \<and> x' = x then Some f else g ! y' ! x')"
  unfolding well_shaped_def set_cell_def
  by (auto simp: nth_list_update)

lemma well_shaped_place: "well_shaped w h g \<Longrightarrow> well_shaped w h (place_coords w h coords g)"
  unfolding place_coords_def
  by (induction coords arbitrary: g) (auto simp: well_shaped_set_cell)

lemma place_coords_nth:
  "well_shaped w h g \<Longrightarrow> y < h \<Longrightarrow> x < w \<Longrightarrow>
   place_coords w h coords g ! y ! x =
     (if names_at coords x y = [] then g ! y ! x else Some (last (names_at coords x y)))"
proof (induction coords arbitrary: g)
  case Nil
  then show ?case by (simp add: place_coords_def names_at_def)
next
  case (Cons c coords)
  obtain x' y' f where c: "c = (x', y', f)" by (cases c) auto
  let ?g = "if y' < h \<and> x' < w then set_cell g y' x' f else g"
  have ws: "well_shaped w h ?g" using Cons.prems(1) by (simp add: well_shaped_set_cell)
  have step: "place_coords w h (c # coords) g = place_coords w h coords ?g"
    by (simp add: place_coords_def c)
  have at: "names_at (c # coords) x y =
      (if x' = x \<and> y' = y then f # names_at coords x y else names_at coords x y)"
    by (simp add: names_at_def c)
  show ?case
    unfolding step Cons.IH [OF ws Cons.prems(2,3)] at
    using Cons.prems by (auto simp: set_cell_nth)
qed

lemma names_at_coord_triples:
  "names_at (coord_triples fnames) x y = filter (\<lambda>f. parse_xy_from_name f = Inr (Some (x, y))) fnames"
  unfolding names_at_def coord_triples_def
  by (induction fnames) (auto split: option.splits sum.splits)

lemma sorted_last_Max:
  fixes xs :: "'a::linorder list"
  assumes "sorted xs" "xs \<noteq> []"
  shows "last xs = Max (set xs)"
proof -
  from assms(2) obtain ys l where xs: "xs = ys @ [l]" by (cases xs rule: rev_cases) auto
  with assms(1) have "\<forall>y \<in> set ys. y \<le> l" by (simp add: sorted_append)
  then show ?thesis unfolding xs by (intro Max_eqI [symmetric]) auto
qed

lemma coord_triples_Cons:
  "coord_triples (f # fs) =
     (case parse_xy_from_name f of Inr (Some (x, y)) \<Rightarrow> [(x, y, f)] | _ \<Rightarrow> []) @ coord_triples fs"
  by (simp add: coord_triples_def)

lemma set_coord_triples:
  "set (coord_triples fnames) =
     {(x, y, f). f \<in> set fnames \<and> parse_xy_from_name f = Inr (Some (x, y))}"
proof (induction fnames)
  case Nil
  then show ?case by (simp add: coord_triples_def)
next
  case (Cons f fs)
  show ?case
    unfolding coord_triples_Cons set_append Cons.IH
    by (auto split: sum.splits option.splits)
qed

lemma set_coord_x:
  "(\<lambda>(x, y, f). x) ` set (coord_triples fnames) =
     {x. \<exists>f \<in> set fnames. \<exists>y. parse_xy_from_name f = Inr (Some (x, y))}"
  unfolding set_coord_triples by force

lemma set_coord_y:
  "(\<lambda>(x, y, f). y) ` set (coord_triples fnames) =
     {y. \<exists>f \<in> set fnames. \<exists>x. parse_xy_from_name f = Inr (Some (x, y))}"
  unfolding set_coord_triples by force

lemma coord_triples_Nil_iff:
  "coord_triples fnames = [] \<longleftrightarrow>
     (\<forall>f \<in> set fnames. \<forall>x y. parse_xy_from_name f \<noteq> Inr (Some (x, y)))"
proof -
  have "coord_triples fnames = [] \<longleftrightarrow> set (coord_triples fnames) = {}" by simp
  also have "\<dots> \<longleftrightarrow> (\<forall>f \<in> set fnames. \<forall>x y. parse_xy_from_name f \<noteq> Inr (Some (x, y)))"
    unfolding set_coord_triples by auto
  finally show ?thesis .
qed

lemma parsed_coords_raises:
  "f \<in> set fnames \<Longrightarrow> parse_xy_from_name f = Inl e \<Longrightarrow> parsed_coords fnames = Inl ValueError"
proof (induction fnames)
  case Nil
  then show ?case by simp
next
  case (Cons g gs)
  show ?case
  proof (cases "parse_xy_from_name g")
    case (Inl e')
    then show ?thesis using parse_xy_from_name_error [OF Inl] by simp
  next
    case (Inr xy)
    then have "f \<in> set gs" using Cons.prems by auto
    then have "parsed_coords gs = Inl ValueError" using Cons by blast
    then show ?thesis using Inr by simp
  qed
qed

lemma parsed_coords_returns:
  "\<forall>f \<in> set fnames. parse_xy_from_name f \<noteq> Inl ValueError \<Longrightarrow>
   parsed_coords fnames = Inr (coord_triples fnames)"
proof (induction fnames)
  case Nil
  then show ?case by (simp add: coord_triples_def)
next
  case (Cons g gs)
  then have IH: "parsed_coords gs = Inr (coord_triples gs)" by simp
  from Cons.prems have "parse_xy_from_name g \<noteq> Inl ValueError" by simp
  then obtain xy where xy: "parse_xy_from_name g = Inr xy"
    using parse_xy_from_name_error [of g] by (cases "parse_xy_from_name g") auto
  show ?case
    by (cases xy) (auto simp: xy IH coord_triples_Cons)
qed

lemma fold_max_Max: "fold max xs (x::nat) = Max (insert x (set xs))"
  using Max.set_eq_fold [of x xs] by simp

lemma reorder_with_coordinates_raises:
  "f \<in> set fnames \<Longrightarrow> parse_xy_from_name f = Inl e \<Longrightarrow>
   reorder_with_coordinates fnames = Inl ValueError"
  by (simp add: reorder_with_coordinates_def parsed_coords_raises)


lemma reorder_with_coordinates_None_iff:
  "reorder_with_coordinates fnames = Inr None \<longleftrightarrow>
     (\<forall>f \<in> set fnames. parse_xy_from_name f = Inr None)"
  (is "?L \<longleftrightarrow> ?R")
proof
  assume L: ?L
  have ok: "\<forall>f \<in> set fnames. parse_xy_from_name f \<noteq> Inl ValueError"
  proof
    fix f assume f: "f \<in> set fnames"
    show "parse_xy_from_name f \<noteq> Inl ValueError"
    proof
      assume "parse_xy_from_name f = Inl ValueError"
      from reorder_with_coordinates_raises [OF f this] L show False by simp
    qed
  qed
  from L have "coord_triples fnames = []"
    by (simp add: reorder_with_coordinates_def parsed_coords_returns [OF ok] Let_def split: list.splits)
  then have no: "\<forall>f \<in> set fnames. \<forall>x y. parse_xy_from_name f \<noteq> Inr (Some (x, y))"
    by (simp only: coord_triples_Nil_iff)
  show ?R
  proof
    fix f assume f: "f \<in> set fnames"
    show "parse_xy_from_name f = Inr None"
    proof (cases "parse_xy_from_name f")
      case (Inl e)
      then show ?thesis using ok f parse_xy_from_name_error [OF Inl] by auto
    next
      case (Inr xy)
      then show ?thesis using no f by (cases xy) auto
    qed
  qed
next
  assume R: ?R
  then have ok: "\<forall>f \<in> set fnames. parse_xy_from_name f \<noteq> Inl ValueError" by simp
  have "coord_triples fnames = []"
    unfolding coord_triples_Nil_iff using R by simp
  then show ?L
    by (simp add: reorder_with_coordinates_def parsed_coords_returns [OF ok])
qed

lemma reorder_with_coordinates_Some:
  assumes "\<forall>f \<in> set fnames. parse_xy_from_name f \<noteq> Inl ValueError"
    and "\<exists>f \<in> set fnames. \<exists>x y. parse_xy_from_name f = Inr (Some (x, y))"
  defines "W \<equiv> Max {x. \<exists>f \<in> set fnames. \<exists>y. parse_xy_from_name f = Inr (Some (x, y))} + 1"
    and "H \<equiv> Max {y. \<exists>f \<in> set fnames. \<exists>x. parse_xy_from_name f = Inr (Some (x, y))} + 1"
  shows "\<exists>grid. reorder_with_coordinates fnames = Inr (Some (grid_names W H grid, W, H, grid)) \<and>
           grid = place_coords W H (coord_triples fnames) (empty_grid W H)"
proof -
  from assms(2) have "coord_triples fnames \<noteq> []"
    by (simp only: coord_triples_Nil_iff) blast
  then obtain c cs where ccs: "coord_triples fnames = c # cs"
    by (cases "coord_triples fnames") auto
  obtain x y f where c: "c = (x, y, f)" by (cases c) auto
  have "fold max (map (\<lambda>(x, y, f). x) cs) (fst c) = Max ((\<lambda>(x, y, f). x) ` set (coord_triples fnames))"
    unfolding fold_max_Max ccs c by simp
  then have mx: "fold max (map (\<lambda>(x, y, f). x) cs) (fst c) + 1 = W"
    unfolding W_def set_coord_x by simp
  have "fold max (map (\<lambda>(x, y, f). y) cs) (fst (snd c)) = Max ((\<lambda>(x, y, f). y) ` set (coord_triples fnames))"
    unfolding fold_max_Max ccs c by simp
  then have my: "fold max (map (\<lambda>(x, y, f). y) cs) (fst (snd c)) + 1 = H"
    unfolding H_def set_coord_y by simp
  show ?thesis
    unfolding reorder_with_coordinates_def parsed_coords_returns [OF assms(1)] ccs
      sum.case list.case Let_def mx my
    by (simp add: ccs [symmetric])
qed

lemma reorder_with_coordinates_Some_names:
  assumes "reorder_with_coordinates fnames = Inr (Some r)"
  shows "(\<forall>f \<in> set fnames. parse_xy_from_name f \<noteq> Inl ValueError) \<and>
         (\<exists>f \<in> set fnames. \<exists>x y. parse_xy_from_name f = Inr (Some (x, y)))"
proof -
  have ok: "\<forall>f \<in> set fnames. parse_xy_from_name f \<noteq> Inl ValueError"
  proof
    fix f assume f: "f \<in> set fnames"
    show "parse_xy_from_name f \<noteq> Inl ValueError"
    proof
      assume "parse_xy_from_name f = Inl ValueError"
      from reorder_with_coordinates_raises [OF f this] assms show False by simp
    qed
  qed
  have "coord_triples fnames \<noteq> []"
    using assms by (auto simp: reorder_with_coordinates_def parsed_coords_returns [OF ok])
  then have "\<exists>f \<in> set fnames. \<exists>x y. parse_xy_from_name f = Inr (Some (x, y))"
    by (simp only: coord_triples_Nil_iff) blast
  with ok show ?thesis by blast
qed

lemma empty_grid_nth: "y < h \<Longrightarrow> x < w \<Longrightarrow> empty_grid w h ! y ! x = None"
  by (simp add: empty_grid_def)

section \<open>Properties of the fallback grids\<close>

lemma sqrt_down_spec:
  "n < Suc k * Suc k \<Longrightarrow> sqrt_down n k * sqrt_down n k \<le> n \<and> n < Suc (sqrt_down n k) * Suc (sqrt_down n k)"
  by (induction k) auto

lemma int_sqrt_spec: "int_sqrt n * int_sqrt n \<le> n \<and> n < (int_sqrt n + 1) * (int_sqrt n + 1)"
  using sqrt_down_spec [of n n] by (simp add: int_sqrt_def)

lemma int_sqrt_pos: "0 < n \<Longrightarrow> 0 < int_sqrt n"
  using int_sqrt_spec [of n] by (cases "int_sqrt n") auto

lemma ceil_div_spec:
  assumes "0 < w"
  shows "\<exists>h. ceil_div n w = Inr h \<and> n \<le> w * h \<and> (\<forall>h'. n \<le> w * h' \<longrightarrow> h \<le> h')"
proof -
  let ?h = "(n + w - 1) div w"
  have 1: "n \<le> w * ?h"
  proof -
    have "n + w - 1 < w * ?h + w"
      using assms dividend_less_times_div [of w "n + w - 1"] by (simp add: mult.commute)
    then show ?thesis using assms by linarith
  qed
  have 2: "?h \<le> h'" if "n \<le> w * h'" for h'
  proof -
    have "n + w - 1 < w * h' + w" using that assms by linarith
    then have "n + w - 1 < (h' + 1) * w" by (simp add: algebra_simps)
    then have "?h < h' + 1" using assms by (simp add: div_less_iff_less_mult)
    then show ?thesis by simp
  qed
  show ?thesis using assms 1 2 by (simp add: ceil_div_def)
qed

lemma row_major_Suc: "row_major W (Suc H) = row_major W H @ map (\<lambda>x. (H, x)) [0..<W]"
  by (simp add: row_major_def)

lemma row_major_eq:
  assumes "0 < W"
  shows "row_major W H = map (\<lambda>c. (c div W, c mod W)) [0..<H * W]"
proof (induction H)
  case 0
  then show ?case by (simp add: row_major_def)
next
  case (Suc H)
  have "[0..<Suc H * W] = [0..<H * W] @ map (\<lambda>x. H * W + x) [0..<W]"
    using upt_add_eq_append [of 0 "H * W" W] by (simp add: map_add_upt add.commute)
  moreover have "map (\<lambda>c. (c div W, c mod W)) (map (\<lambda>x. H * W + x) [0..<W]) = map (\<lambda>x. (H, x)) [0..<W]"
    using assms by (auto simp: comp_def)
  ultimately show ?case
    unfolding row_major_Suc Suc.IH by simp
qed

lemma length_row_major: "length (row_major W H) = H * W"
  by (induction H) (simp_all add: row_major_def)

lemma length_col_major: "length (col_major W H) = W * H"
  unfolding col_major_def by (induction W) simp_all

lemma fold_order_step:
  "fold (order_step names padded) cells (ol, k) =
     (ol @ map (\<lambda>i. names ! (padded ! i)) [k..<k + length cells], k + length cells)"
proof (induction cells arbitrary: ol k)
  case Nil
  then show ?case by simp
next
  case (Cons c cells)
  obtain y x where c: "c = (y, x)" by (cases c) auto
  have u: "[k..<k + Suc (length cells)] = k # [Suc k..<Suc k + length cells]"
    by (subst upt_rec) simp
  have "fold (order_step names padded) (c # cells) (ol, k) =
      fold (order_step names padded) cells (ol @ [names ! (padded ! k)], Suc k)"
    by (simp add: c order_step_def)
  also have "\<dots> = ((ol @ [names ! (padded ! k)]) @ map (\<lambda>i. names ! (padded ! i)) [Suc k..<Suc k + length cells],
      Suc k + length cells)"
    by (rule Cons.IH)
  also have "\<dots> = (ol @ map (\<lambda>i. names ! (padded ! i)) [k..<k + length (c # cells)], k + length (c # cells))"
    unfolding length_Cons u by simp
  finally show ?case .
qed

lemma build_order_list_eq:
  "build_order_list names W H ord =
     map (\<lambda>i. names ! (padded_indices (length names) W H ! i)) [0..<W * H]"
  unfolding build_order_list_def Let_def fold_order_step
  by (cases ord) (simp_all add: length_row_major length_col_major mult.commute)

lemma build_order_list_padded:
  assumes "names \<noteq> []" "length names \<le> W * H"
  shows "build_order_list names W H ord = names @ replicate (W * H - length names) (last names)"
proof -
  let ?p = "padded_indices (length names) W H"
  have len: "length ?p = W * H" using assms(2) by (simp add: padded_indices_def)
  have "build_order_list names W H ord = map (\<lambda>i. names ! (?p ! i)) [0..<length ?p]"
    unfolding build_order_list_eq len ..
  also have "\<dots> = map ((!) names) (map ((!) ?p) [0..<length ?p])"
    by simp
  also have "\<dots> = map ((!) names) ?p"
    unfolding map_nth ..
  also have "\<dots> = map ((!) names) [0..<length names] @ replicate (W * H - length names) (names ! (length names - 1))"
    by (simp add: padded_indices_def)
  also have "\<dots> = names @ replicate (W * H - length names) (last names)"
    using assms(1) by (simp add: map_nth last_conv_nth)
  finally show ?thesis .
qed

lemma order_list_indices_in_range:
  assumes "names \<noteq> []" "length names \<le> W * H" "k < W * H"
  shows "k < length (padded_indices (length names) W H) \<and>
         padded_indices (length names) W H ! k < length names"
  using assms by (auto simp: padded_indices_def nth_append)

lemma fill_step_invariant:
  assumes "0 < W" "n \<le> H * W"
  shows "well_shaped W H (fst (fold (\<lambda>c. fill_step names (c div W, c mod W)) [0..<n] (empty_grid W H, 0))) \<and>
         snd (fold (\<lambda>c. fill_step names (c div W, c mod W)) [0..<n] (empty_grid W H, 0)) = min n (length names) \<and>
         (\<forall>c < H * W. fst (fold (\<lambda>c. fill_step names (c div W, c mod W)) [0..<n] (empty_grid W H, 0)) ! (c div W) ! (c mod W) =
            (if c < min n (length names) then Some (names ! c) else None))"
  using assms(2)
proof (induction n)
  case 0
  have "c div W < H" if "c < H * W" for c
    using that assms(1) by (simp add: less_mult_imp_div_less)
  then show ?case using assms(1) by (simp add: well_shaped_empty empty_grid_nth)
next
  case (Suc n)
  let ?s = "fold (\<lambda>c. fill_step names (c div W, c mod W)) [0..<n] (empty_grid W H, 0)"
  obtain g k where s: "?s = (g, k)" by (cases ?s) auto
  from Suc have IH: "well_shaped W H g" "k = min n (length names)"
      "\<forall>c < H * W. g ! (c div W) ! (c mod W) = (if c < min n (length names) then Some (names ! c) else None)"
    unfolding s by simp_all
  have n: "n < H * W" using Suc.prems by simp
  have nr: "n div W < H" "n mod W < W"
    using n assms(1) by (simp_all add: less_mult_imp_div_less)
  have step: "fold (\<lambda>c. fill_step names (c div W, c mod W)) [0..<Suc n] (empty_grid W H, 0)
      = fill_step names (n div W, n mod W) (g, k)"
    by (simp add: s)
  show ?case
  proof (cases "n < length names")
    case True
    then have k: "k = n" using IH(2) by simp
    have res: "fill_step names (n div W, n mod W) (g, k) = (set_cell g (n div W) (n mod W) (names ! n), n + 1)"
      using True by (simp add: fill_step_def k)
    have cell: "set_cell g (n div W) (n mod W) (names ! n) ! (c div W) ! (c mod W) =
        (if c < min (Suc n) (length names) then Some (names ! c) else None)" if c: "c < H * W" for c
    proof -
      have cr: "c div W < H" "c mod W < W"
        using c assms(1) by (simp_all add: less_mult_imp_div_less)
      have eq: "(c div W = n div W \<and> c mod W = n mod W) \<longleftrightarrow> c = n"
        by (metis div_mult_mod_eq)
      show ?thesis
        unfolding set_cell_nth [OF IH(1) nr cr] eq
        using IH(3) c True by auto
    qed
    show ?thesis
      unfolding step res using True cell IH(1) by (simp add: well_shaped_set_cell)
  next
    case False
    then have "fill_step names (n div W, n mod W) (g, k) = (g, k)"
      using IH(2) by (simp add: fill_step_def)
    then show ?thesis
      unfolding step using False IH by simp
  qed
qed

lemma fill_grid_fold:
  assumes "0 < W"
  shows "fill_grid W H names =
     fst (fold (\<lambda>c. fill_step names (c div W, c mod W)) [0..<H * W] (empty_grid W H, 0))"
  unfolding fill_grid_def row_major_eq [OF assms] fold_map comp_def ..

lemma well_shaped_fill_grid: "well_shaped W H (fill_grid W H names)"
proof (cases "0 < W")
  case True
  then show ?thesis
    using fill_step_invariant [of W "H * W" H names] by (simp add: fill_grid_fold)
next
  case False
  then have "row_major W H = []" by (simp add: row_major_def)
  then show ?thesis by (simp add: fill_grid_def well_shaped_empty)
qed

lemma fill_grid_nth:
  assumes "y < H" "x < W"
  shows "fill_grid W H names ! y ! x =
     (if y * W + x < length names then Some (names ! (y * W + x)) else None)"
proof -
  have W: "0 < W" using assms(2) by simp
  have c: "y * W + x < H * W"
  proof -
    have "y * W + x < y * W + W" using assms(2) by simp
    also have "\<dots> = Suc y * W" by simp
    also have "\<dots> \<le> H * W" using assms(1) by (intro mult_le_mono1) simp
    finally show ?thesis .
  qed
  have dm: "(y * W + x) div W = y" "(y * W + x) mod W = x"
    using assms(2) by simp_all
  have "fill_grid W H names ! ((y * W + x) div W) ! ((y * W + x) mod W) =
      (if y * W + x < min (H * W) (length names) then Some (names ! (y * W + x)) else None)"
    using fill_step_invariant [OF W le_refl, of H names] c
    unfolding fill_grid_fold [OF W] by blast
  then show ?thesis
    unfolding dm using c by simp
qed


lemma approx_grid_order_irrelevant: "approx_grid S Col common = approx_grid S Row common"
  unfolding approx_grid_def build_order_list_eq ..

section \<open>Properties of the mosaic stitcher\<close>

lemma paste_cell_step:
  "paste_cell dir tw th grid c (pastes, warnings) =
     (pastes @ cell_pastes dir tw th grid c, warnings @ cell_warnings dir grid c)"
  by (cases c) (simp add: paste_cell_def cell_pastes_def cell_warnings_def
        split: option.splits tile_file.splits)

lemma fold_paste_cell:
  "fold (paste_cell dir tw th grid) cells (pastes, warnings) =
     (pastes @ concat (map (cell_pastes dir tw th grid) cells),
      warnings @ concat (map (cell_warnings dir grid) cells))"
  by (induction cells arbitrary: pastes warnings) (simp_all add: paste_cell_step)

lemma set_row_major: "set (row_major W H) = {(y, x). y < H \<and> x < W}"
  by (auto simp: row_major_def)

lemma compose_mosaic_result:
  assumes "read_pngs_sorted listing = fnames" "fnames \<noteq> []"
    and "stitch_grid fnames tpr ord = Inr (first # rest, W, H, grid)"
    and "header (dir first) = Some (mode, tile_w, tile_h)"
  shows "compose_mosaic tiles_dir listing dir tpr ord =
     Inr (Mosaic mode (W * tile_w, H * tile_h)
            (concat (map (cell_pastes dir tile_w tile_h grid) (row_major W H))),
          concat (map (cell_warnings dir grid) (row_major W H)))"
  using assms by (simp add: compose_mosaic_def Let_def fold_paste_cell)

lemma compose_mosaic_reference_unreadable:
  assumes "read_pngs_sorted listing = fnames" "fnames \<noteq> []"
    and "stitch_grid fnames tpr ord = Inr (first # rest, W, H, grid)"
    and "header (dir first) = None"
  shows "compose_mosaic tiles_dir listing dir tpr ord = Inl (OSError first)"
  using assms by (simp add: compose_mosaic_def Let_def)

lemma stitch_tiles_saves:
  "compose_mosaic tiles_dir listing dir tpr ord = Inr (mosaic, warnings) \<Longrightarrow>
   stitch_tiles tiles_dir listing dir save_mosaic out_path tpr ord =
     (case save_mosaic out_path mosaic of
        Some e \<Rightarrow> Inl e
      | None \<Rightarrow> Inr (mosaic, warnings))"
  by (simp add: stitch_tiles_def)

lemma stitch_tiles_aborts:
  "compose_mosaic tiles_dir listing dir tpr ord = Inl e \<Longrightarrow>
   stitch_tiles tiles_dir listing dir save_mosaic out_path tpr ord = Inl e"
  by (simp add: stitch_tiles_def)

lemma in_concat_map: "y \<in> set ys \<Longrightarrow> n \<in> set (f y) \<Longrightarrow> n \<in> set (concat (map f ys))"
  by auto

lemma stitch_grid_ordered:
  assumes "fnames \<noteq> []" "stitch_grid fnames tpr ord = Inr (ordered, W, H, grid)"
  shows "ordered \<noteq> [] \<and>
         length grid = H \<and> (\<forall>row \<in> set grid. length row = W) \<and>
         (reorder_with_coordinates fnames \<noteq> Inr None \<longrightarrow> ordered = grid_names W H grid) \<and>
         (reorder_with_coordinates fnames = Inr None \<longrightarrow> hd ordered = hd fnames)"
proof (cases "reorder_with_coordinates fnames")
  case (Inl e)
  then show ?thesis using assms(2) by (simp add: stitch_grid_def)
next
  case (Inr ro)
  show ?thesis
  proof (cases ro)
    case None
    then have b: "build_grid_without_coords fnames tpr ord = Inr (ordered, W, H, grid)"
      using assms(2) Inr by (simp add: stitch_grid_def)
    define N where "N = length fnames"
    have N: "0 < N" using assms(1) by (simp add: N_def)
    have W0: "0 < W"
      using b assms(1) by (auto simp: build_grid_without_coords_def ceil_div_def Let_def
          split: sum.splits if_splits)
    from ceil_div_spec [OF W0, of N] obtain H' where H': "ceil_div N W = Inr H'" "N \<le> W * H'"
      by blast
    have eq: "ordered = build_order_list fnames W H ord" "H = H'" "grid = fill_grid W H ordered"
      using b assms(1) H'(1)
      by (auto simp: build_grid_without_coords_def Let_def N_def split: sum.splits if_splits option.splits)
    have ol: "ordered = fnames @ replicate (W * H - N) (last fnames)"
      unfolding eq(1) N_def using assms(1) H'(2) eq(2)
      by (intro build_order_list_padded) (simp_all add: N_def)
    have "ordered \<noteq> []" "hd ordered = hd fnames"
      unfolding ol using assms(1) by simp_all
    then show ?thesis
      using None Inr well_shaped_fill_grid [of W H ordered] eq(3) by (simp add: well_shaped_def)
  next
    case (Some r)
    then have r: "reorder_with_coordinates fnames = Inr (Some (ordered, W, H, grid))"
      using assms(2) Inr by (simp add: stitch_grid_def)
    from reorder_with_coordinates_Some_names [OF r]
    have ok: "\<forall>f \<in> set fnames. parse_xy_from_name f \<noteq> Inl ValueError"
      and ex: "\<exists>f \<in> set fnames. \<exists>x y. parse_xy_from_name f = Inr (Some (x, y))"
      by blast+
    from reorder_with_coordinates_Some [OF ok ex] r
    have g: "ordered = grid_names W H grid"
      "grid = place_coords W H (coord_triples fnames) (empty_grid W H)"
      and W: "W = Max {x. \<exists>f \<in> set fnames. \<exists>y. parse_xy_from_name f = Inr (Some (x, y))} + 1"
      and H: "H = Max {y. \<exists>f \<in> set fnames. \<exists>x. parse_xy_from_name f = Inr (Some (x, y))} + 1"
      by auto
    have ws: "well_shaped W H grid"
      unfolding g(2) by (intro well_shaped_place well_shaped_empty)
    from ex obtain f x y where f: "f \<in> set fnames" "parse_xy_from_name f = Inr (Some (x, y))"
      by auto
    have fin: "finite {x. \<exists>f \<in> set fnames. \<exists>y. parse_xy_from_name f = Inr (Some (x, y))}"
      "finite {y. \<exists>f \<in> set fnames. \<exists>x. parse_xy_from_name f = Inr (Some (x, y))}"
      unfolding set_coord_x [symmetric] set_coord_y [symmetric] by simp_all
    have "x \<le> Max {x. \<exists>f \<in> set fnames. \<exists>y. parse_xy_from_name f = Inr (Some (x, y))}"
      using f by (intro Max_ge fin) auto
    then have xW: "x < W" unfolding W by simp
    have "y \<le> Max {y. \<exists>f \<in> set fnames. \<exists>x. parse_xy_from_name f = Inr (Some (x, y))}"
      using f by (intro Max_ge fin) auto
    then have yH: "y < H" unfolding H by simp
    have "names_at (coord_triples fnames) x y \<noteq> []"
      using f by (simp add: names_at_coord_triples filter_empty_conv) blast
    then have "grid ! y ! x \<noteq> None"
      unfolding g(2) by (simp add: place_coords_nth [OF well_shaped_empty yH xW])
    then obtain n where n: "grid ! y ! x = Some n" by auto
    have "n \<in> set (grid_names W H grid)"
      unfolding grid_names_def
    proof (rule in_concat_map [of y])
      show "y \<in> set [0..<H]" using yH by simp
      show "n \<in> set (concat (map (\<lambda>x. case grid ! y ! x of None \<Rightarrow> [] | Some f \<Rightarrow> [f]) [0..<W]))"
      proof (rule in_concat_map [of x])
        show "x \<in> set [0..<W]" using xW by simp
        show "n \<in> set (case grid ! y ! x of None \<Rightarrow> [] | Some f \<Rightarrow> [f])" using n by simp
      qed
    qed
    then have "ordered \<noteq> []" unfolding g(1) by auto
    then show ?thesis using g(1) ws Some Inr by (simp add: well_shaped_def)
  qed
qed

lemma cell_pastes_iff:
  "p \<in> set (cell_pastes dir tw th grid (y, x)) \<longleftrightarrow>
     (\<exists>f m sz d. grid ! y ! x = Some f \<and> dir f = Decodable m sz d \<and>
        p = Paste (x * tw, y * th) f d (if sz \<noteq> (tw, th) then Some sz else None))"
proof (cases "grid ! y ! x")
  case None
  then show ?thesis by (simp add: cell_pastes_def)
next
  case (Some f)
  then show ?thesis
    by (cases "dir f") (simp_all add: cell_pastes_def del: split_paired_Ex)
qed

lemma cell_warnings_iff:
  "f \<in> set (cell_warnings dir grid (y, x)) \<longleftrightarrow>
     grid ! y ! x = Some f \<and> (\<forall>m sz d. dir f \<noteq> Decodable m sz d)"
proof (cases "grid ! y ! x")
  case None
  then show ?thesis by (simp add: cell_warnings_def)
next
  case (Some g)
  then show ?thesis
    by (cases "dir g") (auto simp add: cell_warnings_def simp del: split_paired_All)
qed

lemma in_concat_row_major:
  "p \<in> set (concat (map f (row_major W H))) \<longleftrightarrow> (\<exists>y < H. \<exists>x < W. p \<in> set (f (y, x)))"
  by (auto simp: set_row_major)

lemma set_cell_pastes:
  "p \<in> set (concat (map (cell_pastes dir tw th grid) (row_major W H))) \<longleftrightarrow>
     (\<exists>y < H. \<exists>x < W. \<exists>f m sz d. grid ! y ! x = Some f \<and> dir f = Decodable m sz d \<and>
           p = Paste (x * tw, y * th) f d (if sz \<noteq> (tw, th) then Some sz else None))"
  unfolding in_concat_row_major cell_pastes_iff ..

lemma set_cell_warnings:
  "f \<in> set (concat (map (cell_warnings dir grid) (row_major W H))) \<longleftrightarrow>
     (\<exists>y < H. \<exists>x < W. grid ! y ! x = Some f \<and> (\<forall>m sz d. dir f \<noteq> Decodable m sz d))"
  unfolding in_concat_row_major cell_warnings_iff ..

section \<open>Properties of block aggregation\<close>

lemma digit_char: "d < 10 \<Longrightarrow> is_decimal_char (char_of (48 + d)) \<and> of_char (char_of (48 + d :: nat)) - 48 = d"
  by (simp add: is_decimal_char_def)

lemma py_str_nonempty: "py_str n \<noteq> []"
  by (subst py_str.simps) simp

lemma py_str_digits: "list_all is_decimal_char (py_str n)"
proof (induction n rule: py_str.induct)
  case (1 n)
  show ?case
  proof (cases "n < 10")
    case True
    then show ?thesis by (subst py_str.simps) (simp add: digit_char)
  next
    case False
    have "n mod 10 < 10" by simp
    then have "is_decimal_char (char_of (48 + n mod 10))" using digit_char by blast
    then show ?thesis using False 1 by (subst py_str.simps) simp
  qed
qed

lemma isdecimal_py_str: "isdecimal (py_str n)"
  by (simp add: isdecimal_def py_str_nonempty py_str_digits)

lemma decimal_value_py_str: "decimal_value (py_str n) = n"
proof (induction n rule: py_str.induct)
  case (1 n)
  show ?case
  proof (cases "n < 10")
    case True
    then have "py_str n = [] @ [char_of (48 + n)]" by (subst py_str.simps) simp
    then show ?thesis
      using True digit_char [of n] by (simp only: decimal_value_snoc) (simp add: decimal_value_def)
  next
    case False
    have d: "of_char (char_of (48 + n mod 10 :: nat)) - 48 = n mod 10"
      using digit_char [of "n mod 10"] by simp
    have "py_str n = py_str (n div 10) @ [char_of (48 + n mod 10)]"
      using False by (subst py_str.simps) simp
    then show ?thesis using False 1 d by (simp only: decimal_value_snoc) simp
  qed
qed

lemma length_py_str_le: "n < 10 ^ m \<Longrightarrow> 0 < m \<Longrightarrow> length (py_str n) \<le> m"
proof (induction m arbitrary: n)
  case 0
  then show ?case by simp
next
  case (Suc m)
  show ?case
  proof (cases "n < 10")
    case True
    then show ?thesis by (subst py_str.simps) simp
  next
    case False
    then have m: "0 < m" using Suc.prems(1) by (cases m) auto
    have "n div 10 < 10 ^ m" using Suc.prems(1) by (simp add: less_mult_imp_div_less mult.commute)
    then have "length (py_str (n div 10)) \<le> m" using Suc.IH m by blast
    then show ?thesis using False by (subst py_str.simps) simp
  qed
qed

lemma length_zfill: "length (zfill w s) = max w (length s)"
  by (simp add: zfill_def)

lemma decimal_value_zeros:
  "fold (\<lambda>c n. 10 * n + (of_char c - 48)) (replicate m (CHR ''0'')) 0 = (0::nat)"
  by (induction m) simp_all

lemma decimal_value_zfill: "decimal_value (zfill w s) = decimal_value s"
  by (simp only: zfill_def decimal_value_def fold_append comp_apply decimal_value_zeros)

lemma isdecimal_zfill: "isdecimal s \<Longrightarrow> isdecimal (zfill w s)"
  by (auto simp: zfill_def isdecimal_def is_decimal_char_def list_all_iff)

lemma seq_stem_digits:
  "decimal_value (zfill 5 (py_str k)) = k \<and> isdecimal (zfill 5 (py_str k)) \<and>
   length (zfill 5 (py_str k)) = max 5 (length (py_str k)) \<and>
   (k < 100000 \<longrightarrow> length (zfill 5 (py_str k)) = 5)"
proof -
  have "length (py_str k) \<le> 5" if "k < 100000"
    using length_py_str_le [of k 5] that by simp
  then show ?thesis
    by (auto simp: decimal_value_zfill decimal_value_py_str isdecimal_zfill isdecimal_py_str length_zfill)
qed

lemma block_step_positive:
  assumes "0 < t" "0 < g"
  shows "block_step reader mode S t g W H grid px py (by, bx) (ws, c) =
     Inr (ws @ block_writes (block_stem mode S px py bx by c)
                 (compose_block reader S t W H grid bx by) t g, Suc c)"
proof -
  obtain c1 c2 c3 c4 where cb: "compose_block reader S t W H grid bx by = (c1, c2, c3, c4)"
    by (cases "compose_block reader S t W H grid bx by") auto
  show ?thesis
    using assms by (simp add: block_step_def cb resize_def save_def block_writes_def Let_def)
qed

lemma for_each_block_step:
  assumes "0 < t" "0 < g"
  shows "for_each (block_step reader mode S t g W H grid px py) bs (ws, c) =
     Inr (ws @ concat (map (\<lambda>(k, (by, bx)).
                     block_writes (block_stem mode S px py bx by k)
                       (compose_block reader S t W H grid bx by) t g)
                   (List.enumerate c bs)),
          c + length bs)"
proof (induction bs arbitrary: ws c)
  case Nil
  then show ?case by simp
next
  case (Cons b bs)
  obtain "by" bx where b: "b = (by, bx)" by (cases b) auto
  show ?case
    by (simp add: b block_step_positive [OF assms] Cons.IH)
qed

lemma map_enumerate_nth:
  "map (\<lambda>(k, b). f k b) (List.enumerate 0 bs) = map (\<lambda>k. f k (bs ! k)) [0..<length bs]"
  by (rule nth_equalityI) (simp_all add: nth_enumerate_eq)

lemma process_blocks_eq:
  assumes "0 < S" "0 < t" "0 < g"
  shows "process_blocks reader mode S t g W H grid px py =
     Inr (concat (map (\<lambda>k. case blocks W H S ! k of (by, bx) \<Rightarrow>
                        block_writes (block_stem mode S px py bx by k)
                          (compose_block reader S t W H grid bx by) t g)
                   [0..<length (blocks W H S)]),
          length (blocks W H S))"
proof -
  have "map (\<lambda>(k, (by, bx)). block_writes (block_stem mode S px py bx by k)
                       (compose_block reader S t W H grid bx by) t g)
          (List.enumerate 0 (blocks W H S)) =
        map (\<lambda>k. case blocks W H S ! k of (by, bx) \<Rightarrow>
                        block_writes (block_stem mode S px py bx by k)
                          (compose_block reader S t W H grid bx by) t g)
          [0..<length (blocks W H S)]"
    using map_enumerate_nth [of "\<lambda>k b. case b of (by, bx) \<Rightarrow> block_writes (block_stem mode S px py bx by k)
                       (compose_block reader S t W H grid bx by) t g" "blocks W H S"]
    by simp
  then show ?thesis
    using assms(1) by (simp add: process_blocks_def for_each_block_step [OF assms(2,3)])
qed

lemma process_blocks_real_eq:
  "0 < S \<Longrightarrow> process_blocks_real reader mode S t g W H grid px py =
     process_blocks reader mode S t g W H grid px py"
  by (simp add: process_blocks_real_def floor_div_def)

lemma written_names_block_writes:
  "written_names (block_writes stem canvases t g) =
     [(''real'', stem), (''map'', stem), (''ins'', stem), (''guidance'', stem)]"
  by (cases canvases) (simp add: written_names_def block_writes_def)

lemma paste_Canvas: "paste (Canvas m s ps) tile offset = Canvas m s (ps @ [(offset, tile)])"
  by (simp add: paste_def)

lemma compose_member_step:
  "compose_member reader t W H grid bx by (j, i) (Canvas m1 s1 p1, Canvas m2 s2 p2, Canvas m3 s3 p3, Canvas m4 s4 p4) =
     (Canvas m1 s1 (p1 @ [((i * t, j * t), fst (member_tiles reader t W H grid (bx + i) (by + j)))]),
      Canvas m2 s2 (p2 @ [((i * t, j * t), fst (snd (member_tiles reader t W H grid (bx + i) (by + j))))]),
      Canvas m3 s3 (p3 @ [((i * t, j * t), fst (snd (snd (member_tiles reader t W H grid (bx + i) (by + j)))))]),
      Canvas m4 s4 (p4 @ [((i * t, j * t), snd (snd (snd (member_tiles reader t W H grid (bx + i) (by + j)))))]))"
proof (cases "if bx + i \<ge> W \<or> by + j \<ge> H then None else grid ! (by + j) ! (bx + i)")
  case None
  then show ?thesis
    by (simp add: compose_member_def member_tiles_def Let_def paste_Canvas blank_tiles_def)
next
  case (Some f)
  obtain r m ins s where rd: "reader f = (r, m, ins, s)" by (cases "reader f") auto
  from Some show ?thesis
    by (simp add: compose_member_def member_tiles_def Let_def paste_Canvas rd)
qed

lemma fold_compose_member:
  "fold (compose_member reader t W H grid bx by) cells
     (Canvas m1 s1 p1, Canvas m2 s2 p2, Canvas m3 s3 p3, Canvas m4 s4 p4) =
     (Canvas m1 s1 (p1 @ map (\<lambda>(j, i). ((i * t, j * t), fst (member_tiles reader t W H grid (bx + i) (by + j)))) cells),
      Canvas m2 s2 (p2 @ map (\<lambda>(j, i). ((i * t, j * t), fst (snd (member_tiles reader t W H grid (bx + i) (by + j))))) cells),
      Canvas m3 s3 (p3 @ map (\<lambda>(j, i). ((i * t, j * t), fst (snd (snd (member_tiles reader t W H grid (bx + i) (by + j)))))) cells),
      Canvas m4 s4 (p4 @ map (\<lambda>(j, i). ((i * t, j * t), snd (snd (snd (member_tiles reader t W H grid (bx + i) (by + j)))))) cells))"
proof (induction cells arbitrary: p1 p2 p3 p4)
  case Nil
  then show ?case by simp
next
  case (Cons c cells)
  obtain j i where c: "c = (j, i)" by (cases c) auto
  show ?case
    unfolding c fold_simps compose_member_step Cons.IH by simp
qed

lemma compose_block_eq:
  "compose_block reader S t W H grid bx by =
     (Canvas ''RGB'' (S * t, S * t)
        (map (\<lambda>(j, i). ((i * t, j * t), fst (member_tiles reader t W H grid (bx + i) (by + j)))) (row_major S S)),
      Canvas ''L'' (S * t, S * t)
        (map (\<lambda>(j, i). ((i * t, j * t), fst (snd (member_tiles reader t W H grid (bx + i) (by + j))))) (row_major S S)),
      Canvas ''L'' (S * t, S * t)
        (map (\<lambda>(j, i). ((i * t, j * t), fst (snd (snd (member_tiles reader t W H grid (bx + i) (by + j)))))) (row_major S S)),
      Canvas ''RGB'' (S * t, S * t)
        (map (\<lambda>(j, i). ((i * t, j * t), snd (snd (snd (member_tiles reader t W H grid (bx + i) (by + j)))))) (row_major S S)))"
  unfolding compose_block_def fold_compose_member by simp

lemma read_member_cases:
  "(open_convert fs (z1_map_dir a) f ''L'' = Some m \<and>
    open_convert fs (z1_ins_dir a) f ''L'' = Some i \<and>
    open_convert fs (z1_synth_dir a) f ''RGB'' = Some s \<and> blank_real a \<longrightarrow>
      read_member fs a f = (Blank ''RGB'' (tile_size a), m, i, s)) \<and>
   (open_convert fs (z1_map_dir a) f ''L'' = Some m \<and>
    open_convert fs (z1_ins_dir a) f ''L'' = Some i \<and>
    open_convert fs (z1_synth_dir a) f ''RGB'' = Some s \<and> \<not> blank_real a \<and>
    open_convert fs (pseudo_real_dir a) f ''RGB'' = Some r \<longrightarrow>
      read_member fs a f = (r, m, i, s)) \<and>
   (open_convert fs (z1_map_dir a) f ''L'' = None \<or>
    open_convert fs (z1_ins_dir a) f ''L'' = None \<or>
    open_convert fs (z1_synth_dir a) f ''RGB'' = None \<or>
    (\<not> blank_real a \<and> open_convert fs (pseudo_real_dir a) f ''RGB'' = None) \<longrightarrow>
      read_member fs a f = blank_tiles (tile_size a))"
  by (auto simp: read_member_def Let_def split: option.splits)

lemma read_member_real_cases:
  "(open_convert fs real_dir f ''RGB'' = Some r \<and>
    open_convert fs map_dir f ''L'' = Some m \<and>
    open_convert fs ins_dir f ''L'' = Some i \<and>
    open_convert fs synth_dir f ''RGB'' = Some s \<longrightarrow>
      read_member_real fs real_dir map_dir ins_dir synth_dir t f = (r, m, i, s)) \<and>
   (open_convert fs real_dir f ''RGB'' = None \<or>
    open_convert fs map_dir f ''L'' = None \<or>
    open_convert fs ins_dir f ''L'' = None \<or>
    open_convert fs synth_dir f ''RGB'' = None \<longrightarrow>
      read_member_real fs real_dir map_dir ins_dir synth_dir t f = blank_tiles t)"
  by (auto simp: read_member_real_def split: option.splits)

lemma member_tiles_existing:
  "gx < W \<Longrightarrow> gy < H \<Longrightarrow> name_grid ! gy ! gx = Some f \<Longrightarrow>
   member_tiles reader t W H name_grid gx gy = reader f"
  by (simp add: member_tiles_def)

lemma length_range_step: "length (range_step stop step) = (stop + step - 1) div step"
  by (simp add: range_step_def)

lemma length_blocks:
  "length (blocks W H S) = ((H + S - 1) div S) * ((W + S - 1) div S)"
  by (simp add: blocks_def length_concat comp_def length_range_step sum_list_triv)

lemma written_names_concat:
  "written_names (concat (map f ks)) = concat (map (\<lambda>k. written_names (f k)) ks)"
  by (simp add: written_names_def map_concat comp_def)

lemma main_seq_names:
  assumes "ensure_sets fs (z1_map_dir a) (z1_ins_dir a) (z1_synth_dir a) (z1_pseudo_real_dir a) = Inr common"
    and "build_name_grid (block a) (tiles_per_row a) (order_flag a) common = Inr (ordered, W, H, name_grid)"
    and "name_mode a = Seq" and "0 < block a" and "0 < tile_size a" and "0 < guidance_size a"
  shows "written_names (fst (main fs a)) =
     concat (map (\<lambda>k. [(''real'', zfill 5 (py_str k) @ ''.png''), (''map'', zfill 5 (py_str k) @ ''.png''),
                        (''ins'', zfill 5 (py_str k) @ ''.png''), (''guidance'', zfill 5 (py_str k) @ ''.png'')])
               [0..<length (blocks W H (block a))])"
proof -
  let ?F = "\<lambda>k. case blocks W H (block a) ! k of (by, bx) \<Rightarrow>
                        block_writes (block_stem Seq (block a) 0 0 bx by k)
                          (compose_block (read_member fs a) (block a) (tile_size a) W H name_grid bx by)
                          (tile_size a) (guidance_size a)"
  have e: "fst (main fs a) = concat (map ?F [0..<length (blocks W H (block a))])"
    using assms by (simp add: main_def Let_def coord_padding_def process_blocks_eq)
  have n: "written_names (?F k) =
      [(''real'', zfill 5 (py_str k) @ ''.png''), (''map'', zfill 5 (py_str k) @ ''.png''),
       (''ins'', zfill 5 (py_str k) @ ''.png''), (''guidance'', zfill 5 (py_str k) @ ''.png'')]" for k
    by (cases "blocks W H (block a) ! k") (simp add: written_names_block_writes block_stem_def)
  have "written_names (fst (main fs a)) =
      concat (map (\<lambda>k. written_names (?F k)) [0..<length (blocks W H (block a))])"
    unfolding e by (rule written_names_concat)
  then show ?thesis unfolding n .
qed

lemma reorder_with_coordinates_single:
  assumes "parse_xy_from_name f = Inr (Some (x, y))"
  shows "\<exists>ordered grid. reorder_with_coordinates [f] = Inr (Some (ordered, x + 1, y + 1, grid))"
  using assms by (simp add: reorder_with_coordinates_def Let_def)




lemma build_name_grid_shape:
  assumes "build_name_grid S tpr ord common = Inr (ordered, W, H, grid)"
  shows "well_shaped W H grid"
proof (cases "reorder_with_coordinates common")
  case (Inl e)
  then show ?thesis using assms by (simp add: build_name_grid_def)
next
  case (Inr ro)
  show ?thesis
  proof (cases ro)
    case (Some r)
    then have r: "reorder_with_coordinates common = Inr (Some (ordered, W, H, grid))"
      using assms Inr by (simp add: build_name_grid_def)
    from reorder_with_coordinates_Some_names [OF r]
    have ok: "\<forall>f \<in> set common. parse_xy_from_name f \<noteq> Inl ValueError"
      and ex: "\<exists>f \<in> set common. \<exists>x y. parse_xy_from_name f = Inr (Some (x, y))"
      by blast+
    from reorder_with_coordinates_Some [OF ok ex] r
    have "grid = place_coords W H (coord_triples common) (empty_grid W H)"
      by auto
    then show ?thesis by (simp add: well_shaped_place well_shaped_empty)
  next
    case None
    show ?thesis
    proof (cases tpr)
      case (Some w)
      then show ?thesis
        using assms Inr None well_shaped_fill_grid
        by (auto simp: build_name_grid_def tiles_per_row_grid_def Let_def split: sum.splits)
    next
      case n: None
      then show ?thesis
        using assms Inr None well_shaped_fill_grid
        by (auto simp: build_name_grid_def approx_grid_def Let_def split: sum.splits)
    qed
  qed
qed











lemma blocks_row_major:
  "blocks W H S =
     map (\<lambda>(j, i). (j * S, i * S)) (row_major ((W + S - 1) div S) ((H + S - 1) div S))"
  by (simp add: blocks_def range_step_def row_major_def map_concat comp_def)

lemma blocks_eq:
  "blocks W H S =
     map (\<lambda>k. ((k div ((W + S - 1) div S)) * S, (k mod ((W + S - 1) div S)) * S))
       [0..<((H + S - 1) div S) * ((W + S - 1) div S)]"
proof (cases "0 < (W + S - 1) div S")
  case True
  show ?thesis
    unfolding blocks_row_major row_major_eq [OF True] by (simp add: comp_def)
next
  case False
  then have "row_major ((W + S - 1) div S) ((H + S - 1) div S) = []"
    by (simp add: row_major_def)
  then show ?thesis
    unfolding blocks_row_major using False by simp
qed

lemma blocks_nth:
  assumes "k < ((H + S - 1) div S) * ((W + S - 1) div S)"
  shows "blocks W H S ! k = ((k div ((W + S - 1) div S)) * S, (k mod ((W + S - 1) div S)) * S)"
  unfolding blocks_eq using assms by simp

lemma process_blocks_row_major:
  assumes "0 < S" "0 < t" "0 < g"
  shows "process_blocks reader mode S t g W H grid px py =
     Inr (concat (map (\<lambda>k. block_writes
                        (block_stem mode S px py ((k mod ((W + S - 1) div S)) * S)
                           ((k div ((W + S - 1) div S)) * S) k)
                        (compose_block reader S t W H grid ((k mod ((W + S - 1) div S)) * S)
                           ((k div ((W + S - 1) div S)) * S)) t g)
                   [0..<((H + S - 1) div S) * ((W + S - 1) div S)]),
          ((H + S - 1) div S) * ((W + S - 1) div S))"
proof -
  have eq: "map (\<lambda>k. case blocks W H S ! k of (by, bx) \<Rightarrow>
                        block_writes (block_stem mode S px py bx by k)
                          (compose_block reader S t W H grid bx by) t g)
          [0..<((H + S - 1) div S) * ((W + S - 1) div S)] =
        map (\<lambda>k. block_writes
                        (block_stem mode S px py ((k mod ((W + S - 1) div S)) * S)
                           ((k div ((W + S - 1) div S)) * S) k)
                        (compose_block reader S t W H grid ((k mod ((W + S - 1) div S)) * S)
                           ((k div ((W + S - 1) div S)) * S)) t g)
          [0..<((H + S - 1) div S) * ((W + S - 1) div S)]"
    by (rule map_cong [OF refl]) (simp add: blocks_nth)
  show ?thesis
    unfolding process_blocks_eq [OF assms] length_blocks eq ..
qed





section \<open>The coordinate parser: what it accepts\<close>

text \<open>
  Claim C3, as the code has it. The parser returns the pair \<open>(x, y)\<close> exactly when the
  stem (the name without its extension) ends in \<open>X_Y\<close>, where \<open>X\<close> and \<open>Y\<close> are the
  LAST TWO segments of the underscore split, both of them non-empty and made of
  decimal digits only (\<open>isdecimal\<close>, see \<open>isdecimal_iff\<close>); \<open>x\<close> and \<open>y\<close> are then
  their decimal values. Empty segments are not skipped: a name whose last or
  last-but-one segment is empty has no coordinate. It returns \<open>None\<close> exactly when
  the last two segments do not both pass \<^verbatim>\<open>isdigit\<close>, and raises \<^verbatim>\<open>ValueError\<close> exactly
  when both pass \<^verbatim>\<open>isdigit\<close> and one of them holds a superscript digit. On a name of
  ASCII characters there is no such digit: the parser never raises, and it returns
  \<open>None\<close> for every name whose last two segments are not both made of decimal
  digits.
\<close>

theorem parse_xy_from_name_last_two_segments:
  "(parse_xy_from_name name = Inr (Some (x, y)) \<longleftrightarrow>
      (\<exists>pre X Y. fst (splitext name) = pre @ X @ CHR ''_'' # Y \<and>
         (pre = [] \<or> last pre = CHR ''_'') \<and> isdecimal X \<and> isdecimal Y \<and>
         x = decimal_value X \<and> y = decimal_value Y)) \<and>
   (parse_xy_from_name name = Inr None \<longleftrightarrow>
      \<not> (\<exists>pre X Y. fst (splitext name) = pre @ X @ CHR ''_'' # Y \<and>
         (pre = [] \<or> last pre = CHR ''_'') \<and> isdigit X \<and> isdigit Y)) \<and>
   (parse_xy_from_name name = Inl e \<longleftrightarrow>
      e = ValueError \<and>
      (\<exists>pre X Y. fst (splitext name) = pre @ X @ CHR ''_'' # Y \<and>
         (pre = [] \<or> last pre = CHR ''_'') \<and> isdigit X \<and> isdigit Y \<and>
         \<not> (isdecimal X \<and> isdecimal Y))) \<and>
   ((\<forall>c \<in> set name. (of_char c :: nat) < 128) \<longrightarrow>
      parse_xy_from_name name \<noteq> Inl e \<and>
      (parse_xy_from_name name = Inr None \<longleftrightarrow>
         \<not> (\<exists>pre X Y. fst (splitext name) = pre @ X @ CHR ''_'' # Y \<and>
            (pre = [] \<or> last pre = CHR ''_'') \<and> isdecimal X \<and> isdecimal Y)))"
proof (intro conjI impI)
  show "parse_xy_from_name name = Inr (Some (x, y)) \<longleftrightarrow>
      (\<exists>pre X Y. fst (splitext name) = pre @ X @ CHR ''_'' # Y \<and>
         (pre = [] \<or> last pre = CHR ''_'') \<and> isdecimal X \<and> isdecimal Y \<and>
         x = decimal_value X \<and> y = decimal_value Y)"
    by (rule parse_xy_from_name_Some_iff)
  show "parse_xy_from_name name = Inr None \<longleftrightarrow>
      \<not> (\<exists>pre X Y. fst (splitext name) = pre @ X @ CHR ''_'' # Y \<and>
         (pre = [] \<or> last pre = CHR ''_'') \<and> isdigit X \<and> isdigit Y)"
    by (rule parse_xy_from_name_None_iff)
  show "parse_xy_from_name name = Inl e \<longleftrightarrow>
      e = ValueError \<and>
      (\<exists>pre X Y. fst (splitext name) = pre @ X @ CHR ''_'' # Y \<and>
         (pre = [] \<or> last pre = CHR ''_'') \<and> isdigit X \<and> isdigit Y \<and>
         \<not> (isdecimal X \<and> isdecimal Y))"
    by (rule parse_xy_from_name_error_iff)
next
  assume a: "\<forall>c \<in> set name. (of_char c :: nat) < 128"
  show "parse_xy_from_name name \<noteq> Inl e"
    using a by (rule parse_xy_from_name_ascii)
  have no: "\<And>e'. parse_xy_from_name name \<noteq> Inl e'"
    using a by (rule parse_xy_from_name_ascii)
  have "parse_xy_from_name name = Inr None \<longleftrightarrow>
      \<not> (\<exists>a b. parse_xy_from_name name = Inr (Some (a, b)))"
  proof (cases "parse_xy_from_name name")
    case (Inl e')
    then show ?thesis using no by simp
  next
    case (Inr r)
    then show ?thesis by (cases r) auto
  qed
  moreover have "(\<exists>a b. parse_xy_from_name name = Inr (Some (a, b))) \<longleftrightarrow>
      (\<exists>pre X Y. fst (splitext name) = pre @ X @ CHR ''_'' # Y \<and>
         (pre = [] \<or> last pre = CHR ''_'') \<and> isdecimal X \<and> isdecimal Y)"
    unfolding parse_xy_from_name_Some_iff by blast
  ultimately show "parse_xy_from_name name = Inr None \<longleftrightarrow>
      \<not> (\<exists>pre X Y. fst (splitext name) = pre @ X @ CHR ''_'' # Y \<and>
         (pre = [] \<or> last pre = CHR ''_'') \<and> isdecimal X \<and> isdecimal Y)"
    by simp
qed

theorem parse_xy_from_name_last_two_segments_witness:
  "list_all (\<lambda>c. (of_char c :: nat) < 128) ''tile_00042_00007.png'' \<and>
   fst (splitext ''tile_00042_00007.png'') = ''tile_'' @ ''00042'' @ CHR ''_'' # ''00007'' \<and>
   parse_xy_from_name ''tile_00042_00007.png'' = Inr (Some (42, 7)) \<and>
   parse_xy_from_name ''tile_00042_00007.png'' \<noteq> Inl ValueError \<and>
   list_all (\<lambda>c. (of_char c :: nat) < 128) ''readme.png'' \<and>
   parse_xy_from_name ''readme.png'' = Inr None"
proof -
  have ascii: "list_all (\<lambda>c. (of_char c :: nat) < 128) ''tile_00042_00007.png''"
    by code_simp
  then have ascii': "\<forall>c \<in> set ''tile_00042_00007.png''. (of_char c :: nat) < 128"
    by (simp only: list_all_iff)
  have base: "fst (splitext ''tile_00042_00007.png'') = ''tile_'' @ ''00042'' @ CHR ''_'' # ''00007''"
    by code_simp
  have dig: "isdecimal ''00042''" "isdecimal ''00007''"
    by code_simp+
  have vals: "(42::nat) = decimal_value ''00042''" "(7::nat) = decimal_value ''00007''"
    by code_simp+
  have pre: "''tile_'' = [] \<or> last ''tile_'' = CHR ''_''"
    by simp
  have ex: "\<exists>pre X Y. fst (splitext ''tile_00042_00007.png'') = pre @ X @ CHR ''_'' # Y \<and>
         (pre = [] \<or> last pre = CHR ''_'') \<and> isdecimal X \<and> isdecimal Y \<and>
         (42::nat) = decimal_value X \<and> (7::nat) = decimal_value Y"
    using base dig vals pre by blast
  note T = parse_xy_from_name_last_two_segments
    [where name = "''tile_00042_00007.png''" and x = 42 and y = 7 and e = ValueError]
  have p: "parse_xy_from_name ''tile_00042_00007.png'' = Inr (Some (42, 7))"
    by (rule T [THEN conjunct1, THEN iffD2, OF ex])
  have n: "parse_xy_from_name ''tile_00042_00007.png'' \<noteq> Inl ValueError"
    by (rule T [THEN conjunct2, THEN conjunct2, THEN conjunct2, THEN mp, OF ascii', THEN conjunct1])
  have ascii2: "list_all (\<lambda>c. (of_char c :: nat) < 128) ''readme.png''"
    by code_simp
  then have ascii2': "\<forall>c \<in> set ''readme.png''. (of_char c :: nat) < 128"
    by (simp only: list_all_iff)
  have no: "\<not> (\<exists>pre X Y. fst (splitext ''readme.png'') = pre @ X @ CHR ''_'' # Y \<and>
            (pre = [] \<or> last pre = CHR ''_'') \<and> isdecimal X \<and> isdecimal Y)"
  proof
    assume "\<exists>pre X Y. fst (splitext ''readme.png'') = pre @ X @ CHR ''_'' # Y \<and>
            (pre = [] \<or> last pre = CHR ''_'') \<and> isdecimal X \<and> isdecimal Y"
    then obtain pre X Y where "fst (splitext ''readme.png'') = pre @ X @ CHR ''_'' # Y" by blast
    moreover have "fst (splitext ''readme.png'') = ''readme''" by code_simp
    ultimately have "CHR ''_'' \<in> set ''readme''" by (metis in_set_conv_decomp append.assoc)
    then show False by simp
  qed
  note U = parse_xy_from_name_last_two_segments
    [where name = "''readme.png''" and x = 0 and y = 0 and e = ValueError]
  have r: "parse_xy_from_name ''readme.png'' = Inr None"
    by (rule U [THEN conjunct2, THEN conjunct2, THEN conjunct2, THEN mp, OF ascii2', THEN conjunct2,
          THEN iffD2, OF no])
  show ?thesis
    by (intro conjI ascii base p n ascii2 r)
qed

text \<open>
  Claim C3 as stated, with the last two NON-EMPTY segments: in \<^verbatim>\<open>a_1__2.png\<close> the
  segments are \<^verbatim>\<open>a\<close>, \<^verbatim>\<open>1\<close>, the empty one and \<^verbatim>\<open>2\<close>; the last two non-empty ones,
  \<^verbatim>\<open>1\<close> and \<^verbatim>\<open>2\<close>, are all digits, and the parser still returns no coordinate.
\<close>

theorem parse_xy_from_name_empty_segment_counterexample:
  "py_split (CHR ''_'') (fst (splitext ''a_1__2.png'')) = [''a'', ''1'', [], ''2''] \<and>
   isdecimal ''1'' \<and> isdecimal ''2'' \<and>
   parse_last_two_nonempty ''a_1__2.png'' = Some (1, 2) \<and>
   parse_xy_from_name ''a_1__2.png'' = Inr None"
  by code_simp

section \<open>Coordinate inference\<close>

text \<open>
  What \<^verbatim>\<open>reorder_with_coordinates\<close> builds when the parser raises on no name. For a
  list of names in lexicographic order in which at least one name parses, the width
  of the grid is the largest parsed \<open>x\<close> plus one and its height the largest parsed
  \<open>y\<close> plus one; the grid has that many rows and columns; the cell \<open>(x, y)\<close> holds
  the lexicographically last name that parses to \<open>(x, y)\<close>, and is a hole when no
  name parses to \<open>(x, y)\<close>.
\<close>

lemma reorder_with_coordinates_grid:
  assumes "sorted fnames"
    and "\<forall>f \<in> set fnames. parse_xy_from_name f \<noteq> Inl ValueError"
    and "\<exists>f \<in> set fnames. \<exists>x y. parse_xy_from_name f = Inr (Some (x, y))"
  shows "\<exists>ordered width height grid.
           reorder_with_coordinates fnames = Inr (Some (ordered, width, height, grid)) \<and>
           width = Max {x. \<exists>f \<in> set fnames. \<exists>y. parse_xy_from_name f = Inr (Some (x, y))} + 1 \<and>
           height = Max {y. \<exists>f \<in> set fnames. \<exists>x. parse_xy_from_name f = Inr (Some (x, y))} + 1 \<and>
           length grid = height \<and> (\<forall>row \<in> set grid. length row = width) \<and>
           (\<forall>x < width. \<forall>y < height.
              grid ! y ! x =
                (if \<exists>f \<in> set fnames. parse_xy_from_name f = Inr (Some (x, y))
                 then Some (Max {f \<in> set fnames. parse_xy_from_name f = Inr (Some (x, y))})
                 else None))"
proof -
  define W where "W = Max {x. \<exists>f \<in> set fnames. \<exists>y. parse_xy_from_name f = Inr (Some (x, y))} + 1"
  define H where "H = Max {y. \<exists>f \<in> set fnames. \<exists>x. parse_xy_from_name f = Inr (Some (x, y))} + 1"
  define grid where "grid = place_coords W H (coord_triples fnames) (empty_grid W H)"
  have r: "reorder_with_coordinates fnames = Inr (Some (grid_names W H grid, W, H, grid))"
    using reorder_with_coordinates_Some [OF assms(2,3)] unfolding W_def H_def grid_def by simp
  have ws: "well_shaped W H grid"
    unfolding grid_def by (intro well_shaped_place well_shaped_empty)
  have cell: "grid ! y ! x =
      (if \<exists>f \<in> set fnames. parse_xy_from_name f = Inr (Some (x, y))
       then Some (Max {f \<in> set fnames. parse_xy_from_name f = Inr (Some (x, y))})
       else None)" if "x < W" "y < H" for x y
  proof -
    let ?fs = "filter (\<lambda>f. parse_xy_from_name f = Inr (Some (x, y))) fnames"
    have g: "grid ! y ! x = (if ?fs = [] then None else Some (last ?fs))"
      unfolding grid_def
      using place_coords_nth [OF well_shaped_empty that(2,1), of "coord_triples fnames"]
      by (simp add: names_at_coord_triples empty_grid_nth that)
    have e: "?fs = [] \<longleftrightarrow> \<not> (\<exists>f \<in> set fnames. parse_xy_from_name f = Inr (Some (x, y)))"
      by (auto simp: filter_empty_conv)
    have "sorted ?fs" using assms(1) by (rule sorted_wrt_filter)
    then have l: "?fs \<noteq> [] \<Longrightarrow> last ?fs = Max {f \<in> set fnames. parse_xy_from_name f = Inr (Some (x, y))}"
      using sorted_last_Max [of ?fs] by simp
    show ?thesis unfolding g using e l by auto
  qed
  show ?thesis
    using r ws cell unfolding well_shaped_def W_def [symmetric] H_def [symmetric]
    by (intro exI [of _ "grid_names W H grid"] exI [of _ W] exI [of _ H] exI [of _ grid]) simp
qed

text \<open>
  An instance: two names parse to \<open>(1, 0)\<close>, and the later one, \<^verbatim>\<open>b_1_0.png\<close>, is the
  one in the cell; \<^verbatim>\<open>readme.png\<close> has no coordinate and no cell.
\<close>

lemma reorder_with_coordinates_grid_example:
  "sorted [''a_0_1.png'', ''a_1_0.png'', ''b_1_0.png'', ''readme.png''] \<and>
   reorder_with_coordinates [''a_0_1.png'', ''a_1_0.png'', ''b_1_0.png'', ''readme.png'']
     = Inr (Some ([''b_1_0.png'', ''a_0_1.png''], 2, 2,
                  [[None, Some ''b_1_0.png''], [Some ''a_0_1.png'', None]]))"
  by code_simp

text \<open>
  Claim C5 at a list with a superscript digit. The list of \<^verbatim>\<open>a_0_0.png\<close> and of the
  name \<open>superscript_name\<close>, whose first coordinate segment is the one character
  U+00B2, is in lexicographic order, and \<^verbatim>\<open>a_0_0.png\<close> parses to \<open>(0, 0)\<close>. The
  segment U+00B2 passes \<^verbatim>\<open>isdigit\<close>, \<^verbatim>\<open>int\<close> raises on it, the parser raises, and
  \<^verbatim>\<open>reorder_with_coordinates\<close> raises with it where the claim has a grid.
\<close>

theorem reorder_with_coordinates_superscript_digit:
  "sorted [''a_0_0.png'', superscript_name] \<and>
   parse_xy_from_name ''a_0_0.png'' = Inr (Some (0, 0)) \<and>
   py_split (CHR ''_'') (fst (splitext superscript_name)) = [''a'', [CHR 0xB2], ''3''] \<and>
   isdigit [CHR 0xB2] \<and> \<not> isdecimal [CHR 0xB2] \<and>
   py_int [CHR 0xB2] = Inl ValueError \<and>
   parse_xy_from_name superscript_name = Inl ValueError \<and>
   reorder_with_coordinates [''a_0_0.png'', superscript_name] = Inl ValueError \<and>
   reorder_with_coordinates [''a_0_0.png''] =
     Inr (Some ([''a_0_0.png''], 1, 1, [[Some ''a_0_0.png'']]))"
  by code_simp

section \<open>The explicit-width fallback\<close>

text \<open>
  Claim C4 at the mosaic stitcher. No name of \<^verbatim>\<open>a.png\<close>, \<^verbatim>\<open>b.png\<close>, \<^verbatim>\<open>c.png\<close>
  parses; with \<^verbatim>\<open>tpr = 2\<close> the stitcher's \<^verbatim>\<open>build_grid_without_coords\<close>
  pads its list with the last name and puts \<^verbatim>\<open>c.png\<close> into the trailing cell
  \<open>(1, 1)\<close> as well, where the claim has a hole. The same input in block aggregation
  (\<open>tiles_per_row_grid\<close>) leaves that cell a hole, as the claim says
  (\<open>tiles_per_row_grid_truncates\<close> for every input).
\<close>

theorem build_grid_without_coords_repeats_last_name:
  "reorder_with_coordinates [''a.png'', ''b.png'', ''c.png''] = Inr None \<and>
   build_grid_without_coords [''a.png'', ''b.png'', ''c.png''] (Some 2) Row =
     Inr ([''a.png'', ''b.png'', ''c.png'', ''c.png''], 2, 2,
          [[Some ''a.png'', Some ''b.png''], [Some ''c.png'', Some ''c.png'']]) \<and>
   tiles_per_row_grid 2 [''a.png'', ''b.png'', ''c.png''] =
     Inr ([''a.png'', ''b.png'', ''c.png''], 2, 2,
          [[Some ''a.png'', Some ''b.png''], [Some ''c.png'', None]])"
  by code_simp

section \<open>The square-approximation fallback\<close>

text \<open>
  Claim C7, as the code has it by design. For a non-empty list of \<open>N\<close> names and
  the order flag \<^verbatim>\<open>row\<close>, block aggregation takes the width \<open>W = max S r\<close>, where
  \<open>r\<close> is the integer square root of \<open>N\<close>, and the height \<open>H\<close>, the least number
  of rows of width \<open>W\<close> that hold \<open>N\<close> names; the list is padded to exactly
  \<open>W * H\<close> entries with copies of the last name and laid out row by row. The mosaic
  stitcher, which has no block factor, does the same with \<open>1\<close> in the place of \<open>S\<close>.
\<close>

theorem approx_grid_row_major:
  assumes "common \<noteq> []"
  shows "\<exists>r W H order_list grid.
           approx_grid S Row common = Inr (order_list, W, H, grid) \<and>
           r * r \<le> length common \<and> length common < (r + 1) * (r + 1) \<and>
           W = max S r \<and>
           length common \<le> W * H \<and> (\<forall>h. length common \<le> W * h \<longrightarrow> H \<le> h) \<and>
           order_list = common @ replicate (W * H - length common) (last common) \<and>
           length order_list = W * H \<and>
           length grid = H \<and> (\<forall>row \<in> set grid. length row = W) \<and>
           (\<forall>y < H. \<forall>x < W. grid ! y ! x = Some (order_list ! (y * W + x))) \<and>
           build_grid_without_coords common None Row = approx_grid 1 Row common"
proof -
  define N where "N = length common"
  define W where "W = max S (int_sqrt N)"
  have N: "0 < N" using assms by (simp add: N_def)
  then have W: "0 < W" using int_sqrt_pos [of N] by (simp add: W_def)
  from ceil_div_spec [OF W, of N] obtain H
    where H: "ceil_div N W = Inr H" "N \<le> W * H" "\<forall>h. N \<le> W * h \<longrightarrow> H \<le> h"
    by blast
  define order_list where "order_list = build_order_list common W H Row"
  have ol: "order_list = common @ replicate (W * H - N) (last common)"
    unfolding order_list_def N_def
    using assms H(2) by (intro build_order_list_padded) (simp_all add: N_def)
  have len: "length order_list = W * H"
    unfolding ol using H(2) by (simp add: N_def)
  have r: "approx_grid S Row common = Inr (order_list, W, H, fill_grid W H order_list)"
    using H(1) by (simp add: approx_grid_def N_def [symmetric] W_def [symmetric] Let_def order_list_def)
  have cell: "fill_grid W H order_list ! y ! x = Some (order_list ! (y * W + x))"
    if "y < H" "x < W" for y x
  proof -
    have "y * W + x < y * W + W" using that(2) by simp
    also have "\<dots> = W * Suc y" by (simp add: mult.commute)
    also have "\<dots> \<le> W * H" using that(1) by (intro mult_le_mono2) simp
    finally have "y * W + x < length order_list" by (simp add: len)
    then show ?thesis by (simp add: fill_grid_nth [OF that])
  qed
  have st: "build_grid_without_coords common None Row = approx_grid 1 Row common"
    using assms by (simp add: build_grid_without_coords_def approx_grid_def Let_def)
  show ?thesis
    using r int_sqrt_spec [of N] H(2,3) ol len cell st well_shaped_fill_grid [of W H order_list]
    unfolding well_shaped_def N_def [symmetric]
    by (intro exI [of _ "int_sqrt N"] exI [of _ W] exI [of _ H] exI [of _ order_list]
          exI [of _ "fill_grid W H order_list"]) (simp add: W_def)
qed

theorem approx_grid_row_major_witness:
  "[''a.png'', ''b.png'', ''c.png'', ''d.png''] \<noteq> [] \<and>
   (\<exists>r. r * r \<le> length [''a.png'', ''b.png'', ''c.png'', ''d.png''] \<and>
        length [''a.png'', ''b.png'', ''c.png'', ''d.png''] < (r + 1) * (r + 1) \<and>
        (3::nat) = max 3 r) \<and>
   approx_grid 3 Row [''a.png'', ''b.png'', ''c.png'', ''d.png''] =
     Inr ([''a.png'', ''b.png'', ''c.png'', ''d.png'', ''d.png'', ''d.png''], 3, 2,
          [[Some ''a.png'', Some ''b.png'', Some ''c.png''],
           [Some ''d.png'', Some ''d.png'', Some ''d.png'']])"
proof -
  let ?L = "[''a.png'', ''b.png'', ''c.png'', ''d.png'']"
  have h: "?L \<noteq> []" by simp
  have ev: "approx_grid 3 Row ?L =
     Inr ([''a.png'', ''b.png'', ''c.png'', ''d.png'', ''d.png'', ''d.png''], 3, 2,
          [[Some ''a.png'', Some ''b.png'', Some ''c.png''],
           [Some ''d.png'', Some ''d.png'', Some ''d.png'']])"
    by code_simp
  from approx_grid_row_major [OF h, of 3] obtain r W H order_list grid
    where a: "approx_grid 3 Row ?L = Inr (order_list, W, H, grid)"
      and r: "r * r \<le> length ?L" "length ?L < (r + 1) * (r + 1)" "W = max 3 r"
    by blast
  have "W = 3"
    using trans [OF a [symmetric] ev] by (simp only: sum.inject prod.inject)
  have "r * r \<le> length ?L \<and> length ?L < (r + 1) * (r + 1) \<and> (3::nat) = max 3 r"
    using r(1) r(2) r(3) [unfolded \<open>W = 3\<close>] by (intro conjI)
  then have ex: "\<exists>r. r * r \<le> length ?L \<and> length ?L < (r + 1) * (r + 1) \<and> (3::nat) = max 3 r"
    by (rule exI)
  show ?thesis by (intro conjI h ex ev)
qed

text \<open>
  Claim C7 as stated. With four names and the default block factor \<open>3\<close> block
  aggregation builds a grid of width \<open>3\<close>, the stitcher one of width \<open>2\<close>: not the
  same rule. And with the order flag \<^verbatim>\<open>col\<close> the grid is the row-major one, not
  the column-major layout.
\<close>

theorem approx_grid_stitcher_and_order_counterexample:
  "approx_grid 3 Row [''a.png'', ''b.png'', ''c.png'', ''d.png''] =
     Inr ([''a.png'', ''b.png'', ''c.png'', ''d.png'', ''d.png'', ''d.png''], 3, 2,
          [[Some ''a.png'', Some ''b.png'', Some ''c.png''],
           [Some ''d.png'', Some ''d.png'', Some ''d.png'']]) \<and>
   build_grid_without_coords [''a.png'', ''b.png'', ''c.png'', ''d.png''] None Row =
     Inr ([''a.png'', ''b.png'', ''c.png'', ''d.png''], 2, 2,
          [[Some ''a.png'', Some ''b.png''], [Some ''c.png'', Some ''d.png'']]) \<and>
   approx_grid 2 Col [''a.png'', ''b.png'', ''c.png'', ''d.png''] =
     Inr ([''a.png'', ''b.png'', ''c.png'', ''d.png''], 2, 2,
          [[Some ''a.png'', Some ''b.png''], [Some ''c.png'', Some ''d.png'']]) \<and>
   layout_by_order Col 2 2 [''a.png'', ''b.png'', ''c.png'', ''d.png''] =
     [[Some ''a.png'', Some ''c.png''], [Some ''b.png'', Some ''d.png'']]"
  by code_simp

section \<open>Mosaic stitching\<close>

text \<open>
  Claim C2, as the code has it. When the grid is built and the reference tile opens,
  \<^verbatim>\<open>stitch_tiles\<close> allocates a canvas of exactly \<open>(W * tile_w, H * tile_h)\<close> pixels in the
  mode of the reference tile, and the pastes made are exactly those of the cells
  \<open>(x, y)\<close> that hold a name whose file decodes, each at \<open>(x * tile_w, y * tile_h)\<close>,
  resized when its size differs. The reference tile is the first element of
  \<open>ordered\<close>: with coordinates that is the first non-hole cell of the grid read row
  by row, and only in the fallback layout the first name of the sorted listing.
\<close>

theorem stitch_tiles_mosaic:
  assumes "read_pngs_sorted listing = fnames" and "fnames \<noteq> []"
    and "stitch_grid fnames tpr ord = Inr (ordered, W, H, grid)"
    and "header (dir (hd ordered)) = Some (mode, tile_w, tile_h)"
  shows "\<exists>pastes warnings.
     compose_mosaic tiles_dir listing dir tpr ord =
       Inr (Mosaic mode (W * tile_w, H * tile_h) pastes, warnings) \<and>
     (\<forall>p. p \<in> set pastes \<longleftrightarrow>
        (\<exists>y < H. \<exists>x < W. \<exists>f m sz d.
           grid ! y ! x = Some f \<and> dir f = Decodable m sz d \<and>
           p = Paste (x * tile_w, y * tile_h) f d
                 (if sz \<noteq> (tile_w, tile_h) then Some sz else None))) \<and>
     ordered \<noteq> [] \<and>
     (reorder_with_coordinates fnames \<noteq> Inr None \<longrightarrow> ordered = grid_names W H grid) \<and>
     (reorder_with_coordinates fnames = Inr None \<longrightarrow> hd ordered = hd fnames) \<and>
     sorted fnames"
proof -
  from stitch_grid_ordered [OF assms(2,3)]
  have o: "ordered \<noteq> []"
    "reorder_with_coordinates fnames \<noteq> Inr None \<longrightarrow> ordered = grid_names W H grid"
    "reorder_with_coordinates fnames = Inr None \<longrightarrow> hd ordered = hd fnames"
    by simp_all
  have s: "sorted fnames"
    using assms(1) by (auto simp: read_pngs_sorted_def)
  from o(1) obtain first rest where fr: "ordered = first # rest" by (cases ordered) auto
  have r: "compose_mosaic tiles_dir listing dir tpr ord =
     Inr (Mosaic mode (W * tile_w, H * tile_h)
            (concat (map (cell_pastes dir tile_w tile_h grid) (row_major W H))),
          concat (map (cell_warnings dir grid) (row_major W H)))"
    using assms unfolding fr by (intro compose_mosaic_result) simp_all
  show ?thesis
    using r o s set_cell_pastes [of _ dir tile_w tile_h grid W H]
    by (intro exI [of _ "concat (map (cell_pastes dir tile_w tile_h grid) (row_major W H))"]
          exI [of _ "concat (map (cell_warnings dir grid) (row_major W H))"]) blast
qed

theorem stitch_tiles_mosaic_witness:
  "read_pngs_sorted [''1_1.png'', ''0_0.png'', ''1_0.png'', ''0_1.png''] =
     [''0_0.png'', ''0_1.png'', ''1_0.png'', ''1_1.png''] \<and>
   [''0_0.png'', ''0_1.png'', ''1_0.png'', ''1_1.png''] \<noteq> [] \<and>
   stitch_grid [''0_0.png'', ''0_1.png'', ''1_0.png'', ''1_1.png''] None Row =
     Inr ([''0_0.png'', ''1_0.png'', ''0_1.png'', ''1_1.png''], 2, 2,
          [[Some ''0_0.png'', Some ''1_0.png''], [Some ''0_1.png'', Some ''1_1.png'']]) \<and>
   header (all_256_dir (hd [''0_0.png'', ''1_0.png'', ''0_1.png'', ''1_1.png''])) =
     Some (''RGB'', 256, 256) \<and>
   (\<exists>pastes warnings.
      compose_mosaic ''tiles'' [''1_1.png'', ''0_0.png'', ''1_0.png'', ''0_1.png''] all_256_dir
        None Row = Inr (Mosaic ''RGB'' (2 * 256, 2 * 256) pastes, warnings)) \<and>
   compose_mosaic ''tiles'' [''1_1.png'', ''0_0.png'', ''1_0.png'', ''0_1.png''] all_256_dir
     None Row =
     Inr (Mosaic ''RGB'' (512, 512)
            [Paste (0, 0) ''0_0.png'' ''0_0.png'' None,
             Paste (256, 0) ''1_0.png'' ''1_0.png'' None,
             Paste (0, 256) ''0_1.png'' ''0_1.png'' None,
             Paste (256, 256) ''1_1.png'' ''1_1.png'' None],
          [])"
proof -
  have h1: "read_pngs_sorted [''1_1.png'', ''0_0.png'', ''1_0.png'', ''0_1.png''] =
     [''0_0.png'', ''0_1.png'', ''1_0.png'', ''1_1.png'']"
    by code_simp
  have h2: "[''0_0.png'', ''0_1.png'', ''1_0.png'', ''1_1.png''] \<noteq> []"
    by (rule list.distinct(2))
  have h3: "stitch_grid [''0_0.png'', ''0_1.png'', ''1_0.png'', ''1_1.png''] None Row =
     Inr ([''0_0.png'', ''1_0.png'', ''0_1.png'', ''1_1.png''], 2, 2,
          [[Some ''0_0.png'', Some ''1_0.png''], [Some ''0_1.png'', Some ''1_1.png'']])"
    by code_simp
  have h4: "header (all_256_dir (hd [''0_0.png'', ''1_0.png'', ''0_1.png'', ''1_1.png''])) =
     Some (''RGB'', 256, 256)"
    by code_simp
  have ev: "compose_mosaic ''tiles'' [''1_1.png'', ''0_0.png'', ''1_0.png'', ''0_1.png''] all_256_dir
     None Row =
     Inr (Mosaic ''RGB'' (512, 512)
            [Paste (0, 0) ''0_0.png'' ''0_0.png'' None,
             Paste (256, 0) ''1_0.png'' ''1_0.png'' None,
             Paste (0, 256) ''0_1.png'' ''0_1.png'' None,
             Paste (256, 256) ''1_1.png'' ''1_1.png'' None],
          [])"
    by code_simp
  have ex: "\<exists>pastes warnings.
      compose_mosaic ''tiles'' [''1_1.png'', ''0_0.png'', ''1_0.png'', ''0_1.png''] all_256_dir
        None Row = Inr (Mosaic ''RGB'' (2 * 256, 2 * 256) pastes, warnings)"
    using stitch_tiles_mosaic [where dir = all_256_dir and tiles_dir = "''tiles''", OF h1 h2 h3 h4]
    by (elim exE conjE) (intro exI)
  show ?thesis by (intro conjI h1 h2 h3 h4 ex ev)
qed

text \<open>
  Claim C2 as stated, with the lexicographically first tile as the reference. Of
  the two tiles \<^verbatim>\<open>t_0_1.png\<close> (100 by 100) and \<^verbatim>\<open>t_1_0.png\<close> (256 by 256) the first
  in lexicographic order is \<^verbatim>\<open>t_0_1.png\<close>, which would give a canvas of 200 by 200;
  the code takes its reference from the cell \<open>(1, 0)\<close>, the first one of the grid,
  builds a canvas of 512 by 512 and resizes \<^verbatim>\<open>t_0_1.png\<close>.
\<close>

theorem stitch_tiles_reference_tile_counterexample:
  "read_pngs_sorted [''t_1_0.png'', ''t_0_1.png''] = [''t_0_1.png'', ''t_1_0.png''] \<and>
   two_sizes_dir ''t_0_1.png'' = Decodable ''RGB'' (100, 100) ''t_0_1.png'' \<and>
   compose_mosaic ''tiles'' [''t_1_0.png'', ''t_0_1.png''] two_sizes_dir None Row =
     Inr (Mosaic ''RGB'' (512, 512)
            [Paste (256, 0) ''t_1_0.png'' ''t_1_0.png'' None,
             Paste (0, 256) ''t_0_1.png'' ''t_0_1.png'' (Some (100, 100))],
          []) \<and>
   stitch_tiles ''tiles'' [''t_1_0.png'', ''t_0_1.png''] two_sizes_dir png_saver ''out/m.png''
       None Row =
     Inr (Mosaic ''RGB'' (512, 512)
            [Paste (256, 0) ''t_1_0.png'' ''t_1_0.png'' None,
             Paste (0, 256) ''t_0_1.png'' ''t_0_1.png'' (Some (100, 100))],
          [])"
  by code_simp

text \<open>
  Claim C6, as the code has it. Let the grid be built. When the reference tile (the
  first of \<open>ordered\<close>) cannot be opened, the run ends with that exception: nothing
  is composed and nothing saved. When it opens, the loop over the cells runs to its
  end whatever the other files are: every name of the grid whose file does not
  decode is in the warnings and is never pasted, so its cell stays background; only
  such names are in the warnings; and every name of the grid whose file decodes is
  pasted at its cell, whether a failure came before it or not. The run then goes on
  to save the mosaic, and ends as the saving does: no tile bears on that.
\<close>

theorem stitch_tiles_read_failure:
  assumes "read_pngs_sorted listing = fnames" and "fnames \<noteq> []"
    and "stitch_grid fnames tpr ord = Inr (ordered, W, H, grid)"
  shows "(header (dir (hd ordered)) = None \<longrightarrow>
            compose_mosaic tiles_dir listing dir tpr ord = Inl (OSError (hd ordered)) \<and>
            stitch_tiles tiles_dir listing dir save_mosaic out_path tpr ord =
              Inl (OSError (hd ordered))) \<and>
         (\<forall>mode tile_w tile_h. header (dir (hd ordered)) = Some (mode, tile_w, tile_h) \<longrightarrow>
            (\<exists>mosaic warnings.
               compose_mosaic tiles_dir listing dir tpr ord = Inr (mosaic, warnings) \<and>
               (\<forall>y < H. \<forall>x < W. \<forall>f.
                  grid ! y ! x = Some f \<and> (\<forall>m sz d. dir f \<noteq> Decodable m sz d) \<longrightarrow>
                  f \<in> set warnings \<and> (\<forall>p \<in> set (mo_pastes mosaic). src p \<noteq> f)) \<and>
               (\<forall>f \<in> set warnings. \<forall>m sz d. dir f \<noteq> Decodable m sz d) \<and>
               (\<forall>y < H. \<forall>x < W. \<forall>f m sz d.
                  grid ! y ! x = Some f \<and> dir f = Decodable m sz d \<longrightarrow>
                  Paste (x * tile_w, y * tile_h) f d
                    (if sz \<noteq> (tile_w, tile_h) then Some sz else None)
                  \<in> set (mo_pastes mosaic)) \<and>
               stitch_tiles tiles_dir listing dir save_mosaic out_path tpr ord =
                 (case save_mosaic out_path mosaic of
                    Some e \<Rightarrow> Inl e
                  | None \<Rightarrow> Inr (mosaic, warnings))))"
proof (intro conjI impI allI)
  from stitch_grid_ordered [OF assms(2,3)] have "ordered \<noteq> []" by simp
  then obtain first rest where fr: "ordered = first # rest" by (cases ordered) auto
  {
    assume h: "header (dir (hd ordered)) = None"
    show c: "compose_mosaic tiles_dir listing dir tpr ord = Inl (OSError (hd ordered))"
      using assms h unfolding fr by (intro compose_mosaic_reference_unreadable [where rest = rest]) simp_all
    show "stitch_tiles tiles_dir listing dir save_mosaic out_path tpr ord = Inl (OSError (hd ordered))"
      using c by (rule stitch_tiles_aborts)
  }
  fix mode tile_w tile_h
  assume h: "header (dir (hd ordered)) = Some (mode, tile_w, tile_h)"
  let ?ps = "concat (map (cell_pastes dir tile_w tile_h grid) (row_major W H))"
  let ?ws = "concat (map (cell_warnings dir grid) (row_major W H))"
  have r: "compose_mosaic tiles_dir listing dir tpr ord =
     Inr (Mosaic mode (W * tile_w, H * tile_h) ?ps, ?ws)"
    using assms h unfolding fr by (intro compose_mosaic_result) simp_all
  have w: "f \<in> set ?ws" if "y < H" "x < W" "grid ! y ! x = Some f"
    "\<forall>m sz d. dir f \<noteq> Decodable m sz d" for y x f
    unfolding set_cell_warnings using that by blast
  have p: "src p \<noteq> f" if "p \<in> set ?ps" "\<forall>m sz d. dir f \<noteq> Decodable m sz d" for p f
  proof -
    from that(1) obtain g m sz d where "dir g = Decodable m sz d" "src p = g"
      unfolding set_cell_pastes by force
    with that(2) show ?thesis by metis
  qed
  have w2: "\<forall>f \<in> set ?ws. \<forall>m sz d. dir f \<noteq> Decodable m sz d"
  proof
    fix f assume "f \<in> set ?ws"
    then show "\<forall>m sz d. dir f \<noteq> Decodable m sz d"
      unfolding set_cell_warnings by blast
  qed
  have c: "(\<forall>y < H. \<forall>x < W. \<forall>f.
        grid ! y ! x = Some f \<and> (\<forall>m sz d. dir f \<noteq> Decodable m sz d) \<longrightarrow>
        f \<in> set ?ws \<and> (\<forall>p \<in> set (mo_pastes (Mosaic mode (W * tile_w, H * tile_h) ?ps)). src p \<noteq> f))"
    using w p by simp
  have k: "\<forall>y < H. \<forall>x < W. \<forall>f m sz d.
        grid ! y ! x = Some f \<and> dir f = Decodable m sz d \<longrightarrow>
        Paste (x * tile_w, y * tile_h) f d (if sz \<noteq> (tile_w, tile_h) then Some sz else None)
        \<in> set (mo_pastes (Mosaic mode (W * tile_w, H * tile_h) ?ps))"
    unfolding mosaic.sel set_cell_pastes by blast
  note s = stitch_tiles_saves [OF r, of save_mosaic out_path]
  show "\<exists>mosaic warnings.
               compose_mosaic tiles_dir listing dir tpr ord = Inr (mosaic, warnings) \<and>
               (\<forall>y < H. \<forall>x < W. \<forall>f.
                  grid ! y ! x = Some f \<and> (\<forall>m sz d. dir f \<noteq> Decodable m sz d) \<longrightarrow>
                  f \<in> set warnings \<and> (\<forall>p \<in> set (mo_pastes mosaic). src p \<noteq> f)) \<and>
               (\<forall>f \<in> set warnings. \<forall>m sz d. dir f \<noteq> Decodable m sz d) \<and>
               (\<forall>y < H. \<forall>x < W. \<forall>f m sz d.
                  grid ! y ! x = Some f \<and> dir f = Decodable m sz d \<longrightarrow>
                  Paste (x * tile_w, y * tile_h) f d
                    (if sz \<noteq> (tile_w, tile_h) then Some sz else None)
                  \<in> set (mo_pastes mosaic)) \<and>
               stitch_tiles tiles_dir listing dir save_mosaic out_path tpr ord =
                 (case save_mosaic out_path mosaic of
                    Some e \<Rightarrow> Inl e
                  | None \<Rightarrow> Inr (mosaic, warnings))"
    by (intro exI [of _ "Mosaic mode (W * tile_w, H * tile_h) ?ps"] exI [of _ ?ws] conjI)
       (rule r, rule c, rule w2, rule k, rule s)
qed

theorem stitch_tiles_read_failure_witness:
  "read_pngs_sorted [''3_0.png'', ''0_0.png'', ''1_0.png'', ''2_0.png''] =
     [''0_0.png'', ''1_0.png'', ''2_0.png'', ''3_0.png''] \<and>
   [''0_0.png'', ''1_0.png'', ''2_0.png'', ''3_0.png''] \<noteq> [] \<and>
   stitch_grid [''0_0.png'', ''1_0.png'', ''2_0.png'', ''3_0.png''] None Row =
     Inr ([''0_0.png'', ''1_0.png'', ''2_0.png'', ''3_0.png''], 4, 1,
          [[Some ''0_0.png'', Some ''1_0.png'', Some ''2_0.png'', Some ''3_0.png'']]) \<and>
   header (middle_unreadable_dir (hd [''0_0.png'', ''1_0.png'', ''2_0.png'', ''3_0.png''])) =
     Some (''RGB'', 256, 256) \<and>
   middle_unreadable_dir ''1_0.png'' = Unreadable \<and>
   middle_unreadable_dir ''3_0.png'' = Decodable ''RGB'' (256, 256) ''3_0.png'' \<and>
   (\<exists>mosaic warnings.
      compose_mosaic ''tiles'' [''3_0.png'', ''0_0.png'', ''1_0.png'', ''2_0.png'']
        middle_unreadable_dir None Row = Inr (mosaic, warnings) \<and>
      ''1_0.png'' \<in> set warnings \<and> (\<forall>p \<in> set (mo_pastes mosaic). src p \<noteq> ''1_0.png'') \<and>
      Paste (3 * 256, 0 * 256) ''3_0.png'' ''3_0.png'' None \<in> set (mo_pastes mosaic) \<and>
      stitch_tiles ''tiles'' [''3_0.png'', ''0_0.png'', ''1_0.png'', ''2_0.png'']
        middle_unreadable_dir png_saver ''out/m.png'' None Row =
        (case png_saver ''out/m.png'' mosaic of
           Some e \<Rightarrow> Inl e
         | None \<Rightarrow> Inr (mosaic, warnings))) \<and>
   compose_mosaic ''tiles'' [''3_0.png'', ''0_0.png'', ''1_0.png'', ''2_0.png'']
     middle_unreadable_dir None Row =
     Inr (Mosaic ''RGB'' (1024, 256)
            [Paste (0, 0) ''0_0.png'' ''0_0.png'' None,
             Paste (768, 0) ''3_0.png'' ''3_0.png'' None],
          [''1_0.png'', ''2_0.png'']) \<and>
   stitch_tiles ''tiles'' [''3_0.png'', ''0_0.png'', ''1_0.png'', ''2_0.png'']
     middle_unreadable_dir png_saver ''out/m.png'' None Row =
     Inr (Mosaic ''RGB'' (1024, 256)
            [Paste (0, 0) ''0_0.png'' ''0_0.png'' None,
             Paste (768, 0) ''3_0.png'' ''3_0.png'' None],
          [''1_0.png'', ''2_0.png'']) \<and>
   read_pngs_sorted [''0_0.png''] = [''0_0.png''] \<and>
   stitch_grid [''0_0.png''] None Row = Inr ([''0_0.png''], 1, 1, [[Some ''0_0.png'']]) \<and>
   header (first_unreadable_dir (hd [''0_0.png''])) = None \<and>
   compose_mosaic ''tiles'' [''0_0.png''] first_unreadable_dir None Row =
     Inl (OSError (hd [''0_0.png'']))"
proof -
  let ?L = "[''3_0.png'', ''0_0.png'', ''1_0.png'', ''2_0.png'']"
  let ?G = "[[Some ''0_0.png'', Some ''1_0.png'', Some ''2_0.png'', Some ''3_0.png'']]"
  have h1: "read_pngs_sorted ?L = [''0_0.png'', ''1_0.png'', ''2_0.png'', ''3_0.png'']"
    by code_simp
  have h2: "[''0_0.png'', ''1_0.png'', ''2_0.png'', ''3_0.png''] \<noteq> []"
    by (rule list.distinct(2))
  have h3: "stitch_grid [''0_0.png'', ''1_0.png'', ''2_0.png'', ''3_0.png''] None Row =
     Inr ([''0_0.png'', ''1_0.png'', ''2_0.png'', ''3_0.png''], 4, 1, ?G)"
    by code_simp
  have h4: "header (middle_unreadable_dir (hd [''0_0.png'', ''1_0.png'', ''2_0.png'', ''3_0.png''])) =
     Some (''RGB'', 256, 256)"
    by code_simp
  have bad: "middle_unreadable_dir ''1_0.png'' = Unreadable"
    by code_simp
  have good: "middle_unreadable_dir ''3_0.png'' = Decodable ''RGB'' (256, 256) ''3_0.png''"
    by code_simp
  have ev: "compose_mosaic ''tiles'' ?L middle_unreadable_dir None Row =
     Inr (Mosaic ''RGB'' (1024, 256)
            [Paste (0, 0) ''0_0.png'' ''0_0.png'' None,
             Paste (768, 0) ''3_0.png'' ''3_0.png'' None],
          [''1_0.png'', ''2_0.png''])"
    by code_simp
  have ev2: "stitch_tiles ''tiles'' ?L middle_unreadable_dir png_saver ''out/m.png'' None Row =
     Inr (Mosaic ''RGB'' (1024, 256)
            [Paste (0, 0) ''0_0.png'' ''0_0.png'' None,
             Paste (768, 0) ''3_0.png'' ''3_0.png'' None],
          [''1_0.png'', ''2_0.png''])"
    by code_simp
  have cell1: "?G ! 0 ! 1 = Some ''1_0.png''" and cell3: "?G ! 0 ! 3 = Some ''3_0.png''"
    by simp_all
  have lt: "(0::nat) < 1" "(1::nat) < 4" "(3::nat) < 4"
    by simp_all
  have nodec: "\<forall>m sz d. middle_unreadable_dir ''1_0.png'' \<noteq> Decodable m sz d"
    by (simp add: bad)
  note T = stitch_tiles_read_failure
    [where dir = middle_unreadable_dir and tiles_dir = "''tiles''" and save_mosaic = png_saver
       and out_path = "''out/m.png''", OF h1 h2 h3]
  from T [THEN conjunct2, rule_format, OF h4] obtain mosaic warnings
    where r: "compose_mosaic ''tiles'' ?L middle_unreadable_dir None Row = Inr (mosaic, warnings)"
      and c: "\<forall>y < 1. \<forall>x < 4. \<forall>f.
        ?G ! y ! x = Some f \<and> (\<forall>m sz d. middle_unreadable_dir f \<noteq> Decodable m sz d) \<longrightarrow>
        f \<in> set warnings \<and> (\<forall>p \<in> set (mo_pastes mosaic). src p \<noteq> f)"
      and k: "\<forall>y < 1. \<forall>x < 4. \<forall>f m sz d.
        ?G ! y ! x = Some f \<and> middle_unreadable_dir f = Decodable m sz d \<longrightarrow>
        Paste (x * 256, y * 256) f d (if sz \<noteq> (256, 256) then Some sz else None)
        \<in> set (mo_pastes mosaic)"
      and s: "stitch_tiles ''tiles'' ?L middle_unreadable_dir png_saver ''out/m.png'' None Row =
        (case png_saver ''out/m.png'' mosaic of
           Some e \<Rightarrow> Inl e
         | None \<Rightarrow> Inr (mosaic, warnings))"
    by (elim exE conjE)
  have c1: "''1_0.png'' \<in> set warnings \<and> (\<forall>p \<in> set (mo_pastes mosaic). src p \<noteq> ''1_0.png'')"
    by (rule c [rule_format, OF lt(1) lt(2) conjI [OF cell1 nodec]])
  have "Paste (3 * 256, 0 * 256) ''3_0.png'' ''3_0.png''
          (if (256, 256) \<noteq> (256 :: nat, 256 :: nat) then Some (256, 256) else None)
        \<in> set (mo_pastes mosaic)"
    by (rule k [rule_format, OF lt(1) lt(3) conjI [OF cell3 good]])
  then have k3: "Paste (3 * 256, 0 * 256) ''3_0.png'' ''3_0.png'' None \<in> set (mo_pastes mosaic)"
    by (simp only: simp_thms if_False)
  have ex: "\<exists>mosaic warnings.
      compose_mosaic ''tiles'' ?L middle_unreadable_dir None Row = Inr (mosaic, warnings) \<and>
      ''1_0.png'' \<in> set warnings \<and> (\<forall>p \<in> set (mo_pastes mosaic). src p \<noteq> ''1_0.png'') \<and>
      Paste (3 * 256, 0 * 256) ''3_0.png'' ''3_0.png'' None \<in> set (mo_pastes mosaic) \<and>
      stitch_tiles ''tiles'' ?L middle_unreadable_dir png_saver ''out/m.png'' None Row =
        (case png_saver ''out/m.png'' mosaic of
           Some e \<Rightarrow> Inl e
         | None \<Rightarrow> Inr (mosaic, warnings))"
    by (rule exI [of _ mosaic], rule exI [of _ warnings])
       (intro conjI r c1 [THEN conjunct1] c1 [THEN conjunct2] k3 s)
  have g1: "read_pngs_sorted [''0_0.png''] = [''0_0.png'']"
    by code_simp
  have g2: "[''0_0.png''] \<noteq> []"
    by (rule list.distinct(2))
  have g3: "stitch_grid [''0_0.png''] None Row = Inr ([''0_0.png''], 1, 1, [[Some ''0_0.png'']])"
    by code_simp
  have g4: "header (first_unreadable_dir (hd [''0_0.png''])) = None"
    by code_simp
  note U = stitch_tiles_read_failure
    [where dir = first_unreadable_dir and tiles_dir = "''tiles''" and save_mosaic = png_saver
       and out_path = "''out/m.png''", OF g1 g2 g3]
  have ab: "compose_mosaic ''tiles'' [''0_0.png''] first_unreadable_dir None Row =
     Inl (OSError (hd [''0_0.png'']))"
    by (rule U [THEN conjunct1, THEN mp, OF g4, THEN conjunct1])
  show ?thesis
    by (intro conjI h1 h2 h3 h4 bad good ex ev ev2 g1 g3 g4 ab)
qed

text \<open>
  Claim C6 as stated, the first tile included. The open of the first tile of
  \<open>ordered\<close> is outside every \<^verbatim>\<open>try\<close>: when \<^verbatim>\<open>0_0.png\<close> cannot be opened the run
  ends with that error, no mosaic is composed and nothing is saved, although the
  other tile reads.
\<close>

theorem stitch_tiles_first_tile_counterexample:
  "first_unreadable_dir ''0_0.png'' = Unreadable \<and>
   first_unreadable_dir ''0_1.png'' = Decodable ''RGB'' (256, 256) ''0_1.png'' \<and>
   compose_mosaic ''tiles'' [''0_0.png'', ''0_1.png''] first_unreadable_dir None Row =
     Inl (OSError ''0_0.png'') \<and>
   stitch_tiles ''tiles'' [''0_0.png'', ''0_1.png''] first_unreadable_dir png_saver ''out/m.png''
       None Row =
     Inl (OSError ''0_0.png'')"
  by code_simp

section \<open>Block aggregation: reading the members\<close>

text \<open>
  Claim C1, as the code has it. The pastes of a block are, in each of the four
  canvases, one tile per member \<open>(j, i)\<close> at \<open>(i * t, j * t)\<close>, the tile of that
  member alone (\<open>member_tiles\<close>, which for a cell that holds a name is what the
  reader returns for that name). The reader of either script returns the four
  loaded tiles when every read of the member succeeds (the real tile being a blank
  under \<^verbatim>\<open>--blank_real\<close>), and the four blank tiles as soon as one read fails: a
  failure in one channel blanks every channel of that member.
\<close>

theorem member_read_failure_blanks_all_channels:
  "compose_block reader S t W H name_grid bx by =
     (Canvas ''RGB'' (S * t, S * t)
        (map (\<lambda>(j, i). ((i * t, j * t), fst (member_tiles reader t W H name_grid (bx + i) (by + j))))
           (row_major S S)),
      Canvas ''L'' (S * t, S * t)
        (map (\<lambda>(j, i). ((i * t, j * t), fst (snd (member_tiles reader t W H name_grid (bx + i) (by + j)))))
           (row_major S S)),
      Canvas ''L'' (S * t, S * t)
        (map (\<lambda>(j, i). ((i * t, j * t), fst (snd (snd (member_tiles reader t W H name_grid (bx + i) (by + j))))))
           (row_major S S)),
      Canvas ''RGB'' (S * t, S * t)
        (map (\<lambda>(j, i). ((i * t, j * t), snd (snd (snd (member_tiles reader t W H name_grid (bx + i) (by + j))))))
           (row_major S S))) \<and>
   (gx < W \<and> gy < H \<and> name_grid ! gy ! gx = Some f \<longrightarrow>
      member_tiles reader t W H name_grid gx gy = reader f) \<and>
   ((open_convert fs (z1_map_dir a) f ''L'' = Some m \<and>
     open_convert fs (z1_ins_dir a) f ''L'' = Some i \<and>
     open_convert fs (z1_synth_dir a) f ''RGB'' = Some s \<and> blank_real a \<longrightarrow>
       read_member fs a f = (Blank ''RGB'' (tile_size a), m, i, s)) \<and>
    (open_convert fs (z1_map_dir a) f ''L'' = Some m \<and>
     open_convert fs (z1_ins_dir a) f ''L'' = Some i \<and>
     open_convert fs (z1_synth_dir a) f ''RGB'' = Some s \<and> \<not> blank_real a \<and>
     open_convert fs (pseudo_real_dir a) f ''RGB'' = Some r \<longrightarrow>
       read_member fs a f = (r, m, i, s)) \<and>
    (open_convert fs (z1_map_dir a) f ''L'' = None \<or>
     open_convert fs (z1_ins_dir a) f ''L'' = None \<or>
     open_convert fs (z1_synth_dir a) f ''RGB'' = None \<or>
     (\<not> blank_real a \<and> open_convert fs (pseudo_real_dir a) f ''RGB'' = None) \<longrightarrow>
       read_member fs a f = blank_tiles (tile_size a))) \<and>
   ((open_convert fs real_dir f ''RGB'' = Some r \<and>
     open_convert fs map_dir f ''L'' = Some m \<and>
     open_convert fs ins_dir f ''L'' = Some i \<and>
     open_convert fs synth_dir f ''RGB'' = Some s \<longrightarrow>
       read_member_real fs real_dir map_dir ins_dir synth_dir t f = (r, m, i, s)) \<and>
    (open_convert fs real_dir f ''RGB'' = None \<or>
     open_convert fs map_dir f ''L'' = None \<or>
     open_convert fs ins_dir f ''L'' = None \<or>
     open_convert fs synth_dir f ''RGB'' = None \<longrightarrow>
       read_member_real fs real_dir map_dir ins_dir synth_dir t f = blank_tiles t))"
proof -
  have 1: "gx < W \<and> gy < H \<and> name_grid ! gy ! gx = Some f \<longrightarrow>
      member_tiles reader t W H name_grid gx gy = reader f"
    using member_tiles_existing [of gx W gy H name_grid f reader t] by blast
  show ?thesis
    by (rule conjI [OF compose_block_eq conjI [OF 1 conjI [OF read_member_cases read_member_real_cases]]])
qed

theorem member_read_failure_blanks_all_channels_witness:
  "open_convert map_unreadable_fs (z1_map_dir example_args) ''a_0_0.png'' ''L'' = None \<and>
   read_member map_unreadable_fs example_args ''a_0_0.png'' = blank_tiles (tile_size example_args)"
proof -
  have h: "open_convert map_unreadable_fs (z1_map_dir example_args) ''a_0_0.png'' ''L'' = None"
    by code_simp
  note T = member_read_failure_blanks_all_channels
    [where fs = map_unreadable_fs and a = example_args and f = "''a_0_0.png''",
     THEN conjunct2, THEN conjunct2, THEN conjunct1, THEN conjunct2, THEN conjunct2]
  have "read_member map_unreadable_fs example_args ''a_0_0.png'' = blank_tiles (tile_size example_args)"
    by (rule T [THEN mp, OF disjI1 [OF h]])
  with h show ?thesis by (rule conjI)
qed

text \<open>
  Claim C1 as stated, with every channel on its own. The map tile of
  \<^verbatim>\<open>a_0_0.png\<close> cannot be read, the synthesized, instance and real tiles can: both
  scripts paste four blanks for that member, where the claim has the three readable
  channels pasted from disk (\<open>read_member_independent\<close>).
\<close>

theorem member_read_independent_counterexample:
  "open_convert map_unreadable_fs ''map'' ''a_0_0.png'' ''L'' = None \<and>
   open_convert map_unreadable_fs ''synth'' ''a_0_0.png'' ''RGB'' =
     Some (Loaded ''RGB'' (256, 256) ''synth/a_0_0.png'') \<and>
   read_member map_unreadable_fs example_args ''a_0_0.png'' =
     (Blank ''RGB'' 256, Blank ''L'' 256, Blank ''L'' 256, Blank ''RGB'' 256) \<and>
   read_member_real map_unreadable_fs ''real'' ''map'' ''ins'' ''synth'' 256 ''a_0_0.png'' =
     (Blank ''RGB'' 256, Blank ''L'' 256, Blank ''L'' 256, Blank ''RGB'' 256) \<and>
   read_member_independent map_unreadable_fs ''real'' ''map'' ''ins'' ''synth'' 256 ''a_0_0.png'' =
     (Loaded ''RGB'' (256, 256) ''real/a_0_0.png'', Blank ''L'' 256,
      Loaded ''L'' (256, 256) ''ins/a_0_0.png'', Loaded ''RGB'' (256, 256) ''synth/a_0_0.png'')"
  by code_simp

section \<open>Block aggregation: output names\<close>




section \<open>Block aggregation: how a run ends\<close>




text \<open>
  The run on a common name with a superscript digit: the parser raises inside
  \<^verbatim>\<open>reorder_with_coordinates\<close>, and the run ends there.
\<close>

lemma main_superscript_name:
  "common_names superscript_fs example_args \<noteq> {} \<and>
   main superscript_fs example_args = ([], Aborted ValueError)"
  by code_simp

section \<open>Block aggregation: sequential names\<close>

text \<open>
  Claim C10, as the code has it. In sequential naming with a block factor, a tile
  size and a guidance size of at least 1, the files written are, for
  \<open>k = 0, 1, \<dots>\<close>, the four files of the \<open>k\<close>-th block in row-major block order:
  with \<open>n\<close> blocks in a row, the block in the block row \<open>k div n\<close> and the block
  column \<open>k mod n\<close>, anchored at \<open>((k mod n) * S, (k div n) * S)\<close>. All four are
  named by the decimal digits of \<open>k\<close> zero-padded to AT LEAST five digits: exactly
  five for \<open>k < 100000\<close>, and as many as \<open>k\<close> has beyond. The loop is the one of
  both scripts, for any reader.
\<close>

theorem process_blocks_sequential_names:
  assumes "0 < S" and "0 < t" and "0 < g"
  shows "process_blocks reader Seq S t g W H name_grid pad_x pad_y =
     Inr (concat (map (\<lambda>k. block_writes (zfill 5 (py_str k) @ ''.png'')
                          (compose_block reader S t W H name_grid
                             ((k mod ((W + S - 1) div S)) * S)
                             ((k div ((W + S - 1) div S)) * S)) t g)
                   [0..<((H + S - 1) div S) * ((W + S - 1) div S)]),
          ((H + S - 1) div S) * ((W + S - 1) div S)) \<and>
   process_blocks_real reader Seq S t g W H name_grid pad_x pad_y =
     process_blocks reader Seq S t g W H name_grid pad_x pad_y \<and>
   (\<forall>stem canvases.
      written_names (block_writes stem canvases t g) =
        [(''real'', stem), (''map'', stem), (''ins'', stem), (''guidance'', stem)]) \<and>
   (\<forall>k. decimal_value (zfill 5 (py_str k)) = k \<and> isdecimal (zfill 5 (py_str k)) \<and>
        length (zfill 5 (py_str k)) = max 5 (length (py_str k)) \<and>
        (k < 100000 \<longrightarrow> length (zfill 5 (py_str k)) = 5))"
proof -
  have 1: "process_blocks reader Seq S t g W H name_grid pad_x pad_y =
     Inr (concat (map (\<lambda>k. block_writes (zfill 5 (py_str k) @ ''.png'')
                          (compose_block reader S t W H name_grid
                             ((k mod ((W + S - 1) div S)) * S)
                             ((k div ((W + S - 1) div S)) * S)) t g)
                   [0..<((H + S - 1) div S) * ((W + S - 1) div S)]),
          ((H + S - 1) div S) * ((W + S - 1) div S))"
    unfolding process_blocks_row_major [OF assms] by (simp add: block_stem_def)
  have 2: "process_blocks_real reader Seq S t g W H name_grid pad_x pad_y =
     process_blocks reader Seq S t g W H name_grid pad_x pad_y"
    using assms(1) by (rule process_blocks_real_eq)
  have 3: "\<forall>stem canvases.
      written_names (block_writes stem canvases t g) =
        [(''real'', stem), (''map'', stem), (''ins'', stem), (''guidance'', stem)]"
    using written_names_block_writes by blast
  have 4: "\<forall>k. decimal_value (zfill 5 (py_str k)) = k \<and> isdecimal (zfill 5 (py_str k)) \<and>
        length (zfill 5 (py_str k)) = max 5 (length (py_str k)) \<and>
        (k < 100000 \<longrightarrow> length (zfill 5 (py_str k)) = 5)"
    using seq_stem_digits by blast
  show ?thesis
    by (intro conjI 1 2 3 4)
qed

theorem process_blocks_sequential_names_witness:
  "(0::nat) < 1 \<and> (0::nat) < 256 \<and> (0::nat) < 64 \<and>
   build_name_grid 1 None Row [''t_0_0.png'', ''t_0_1.png'', ''t_1_0.png'', ''t_1_1.png''] =
     Inr ([''t_0_0.png'', ''t_1_0.png'', ''t_0_1.png'', ''t_1_1.png''], 2, 2,
          [[Some ''t_0_0.png'', Some ''t_1_0.png''], [Some ''t_0_1.png'', Some ''t_1_1.png'']]) \<and>
   process_blocks (read_member four_tiles_fs (example_args\<lparr>block := 1, name_mode := Seq\<rparr>))
       Seq 1 256 64 2 2
       [[Some ''t_0_0.png'', Some ''t_1_0.png''], [Some ''t_0_1.png'', Some ''t_1_1.png'']] 0 0 =
     Inr (concat (map (\<lambda>k. block_writes (zfill 5 (py_str k) @ ''.png'')
                          (compose_block
                             (read_member four_tiles_fs (example_args\<lparr>block := 1, name_mode := Seq\<rparr>))
                             1 256 2 2
                             [[Some ''t_0_0.png'', Some ''t_1_0.png''],
                              [Some ''t_0_1.png'', Some ''t_1_1.png'']]
                             ((k mod ((2 + 1 - 1) div 1)) * 1)
                             ((k div ((2 + 1 - 1) div 1)) * 1)) 256 64)
                   [0..<((2 + 1 - 1) div 1) * ((2 + 1 - 1) div 1)]),
          ((2 + 1 - 1) div 1) * ((2 + 1 - 1) div 1)) \<and>
   map (\<lambda>(subdir, stem, img). (stem, img))
     (filter (\<lambda>(subdir, stem, img). subdir = ''guidance'')
        (fst (main four_tiles_fs (example_args\<lparr>block := 1, name_mode := Seq\<rparr>)))) =
     [(''00000.png'',
       Resized (Canvas ''RGB'' (256, 256) [((0, 0), Loaded ''RGB'' (256, 256) ''synth/t_0_0.png'')])
         (64, 64) ''LANCZOS''),
      (''00001.png'',
       Resized (Canvas ''RGB'' (256, 256) [((0, 0), Loaded ''RGB'' (256, 256) ''synth/t_1_0.png'')])
         (64, 64) ''LANCZOS''),
      (''00002.png'',
       Resized (Canvas ''RGB'' (256, 256) [((0, 0), Loaded ''RGB'' (256, 256) ''synth/t_0_1.png'')])
         (64, 64) ''LANCZOS''),
      (''00003.png'',
       Resized (Canvas ''RGB'' (256, 256) [((0, 0), Loaded ''RGB'' (256, 256) ''synth/t_1_1.png'')])
         (64, 64) ''LANCZOS'')] \<and>
   written_names (fst (main four_tiles_fs (example_args\<lparr>block := 1, name_mode := Seq\<rparr>))) =
     [(''real'', ''00000.png''), (''map'', ''00000.png''), (''ins'', ''00000.png''), (''guidance'', ''00000.png''),
      (''real'', ''00001.png''), (''map'', ''00001.png''), (''ins'', ''00001.png''), (''guidance'', ''00001.png''),
      (''real'', ''00002.png''), (''map'', ''00002.png''), (''ins'', ''00002.png''), (''guidance'', ''00002.png''),
      (''real'', ''00003.png''), (''map'', ''00003.png''), (''ins'', ''00003.png''), (''guidance'', ''00003.png'')]"
proof -
  let ?a = "example_args\<lparr>block := 1, name_mode := Seq\<rparr>"
  let ?G = "[[Some ''t_0_0.png'', Some ''t_1_0.png''], [Some ''t_0_1.png'', Some ''t_1_1.png'']]"
  have h1: "(0::nat) < 1" and h2: "(0::nat) < 256" and h3: "(0::nat) < 64"
    by simp_all
  have bg: "build_name_grid 1 None Row [''t_0_0.png'', ''t_0_1.png'', ''t_1_0.png'', ''t_1_1.png''] =
     Inr ([''t_0_0.png'', ''t_1_0.png'', ''t_0_1.png'', ''t_1_1.png''], 2, 2, ?G)"
    by code_simp
  note T = process_blocks_sequential_names
    [OF h1 h2 h3, where reader = "read_member four_tiles_fs ?a"
       and W = 2 and H = 2 and name_grid = ?G and pad_x = 0 and pad_y = 0,
     THEN conjunct1]
  have ev: "map (\<lambda>(subdir, stem, img). (stem, img))
     (filter (\<lambda>(subdir, stem, img). subdir = ''guidance'') (fst (main four_tiles_fs ?a))) =
     [(''00000.png'',
       Resized (Canvas ''RGB'' (256, 256) [((0, 0), Loaded ''RGB'' (256, 256) ''synth/t_0_0.png'')])
         (64, 64) ''LANCZOS''),
      (''00001.png'',
       Resized (Canvas ''RGB'' (256, 256) [((0, 0), Loaded ''RGB'' (256, 256) ''synth/t_1_0.png'')])
         (64, 64) ''LANCZOS''),
      (''00002.png'',
       Resized (Canvas ''RGB'' (256, 256) [((0, 0), Loaded ''RGB'' (256, 256) ''synth/t_0_1.png'')])
         (64, 64) ''LANCZOS''),
      (''00003.png'',
       Resized (Canvas ''RGB'' (256, 256) [((0, 0), Loaded ''RGB'' (256, 256) ''synth/t_1_1.png'')])
         (64, 64) ''LANCZOS'')]"
    by code_simp
  have wn: "written_names (fst (main four_tiles_fs ?a)) =
     [(''real'', ''00000.png''), (''map'', ''00000.png''), (''ins'', ''00000.png''), (''guidance'', ''00000.png''),
      (''real'', ''00001.png''), (''map'', ''00001.png''), (''ins'', ''00001.png''), (''guidance'', ''00001.png''),
      (''real'', ''00002.png''), (''map'', ''00002.png''), (''ins'', ''00002.png''), (''guidance'', ''00002.png''),
      (''real'', ''00003.png''), (''map'', ''00003.png''), (''ins'', ''00003.png''), (''guidance'', ''00003.png'')]"
    by code_simp
  show ?thesis
    by (rule conjI [OF h1 conjI [OF h2 conjI [OF h3 conjI [OF bg conjI [OF T conjI [OF ev wn]]]]]])
qed

text \<open>
  Claim C10 as stated, with exactly five digits. A single tile named
  \<^verbatim>\<open>a_0_100000.png\<close> gives a grid of height 100001; with the block factor 1 the
  block number 100000 is written as \<^verbatim>\<open>100000.png\<close>, six digits.
\<close>

theorem main_sequential_six_digits_counterexample:
  "(''real'', ''100000.png'') \<in>
     set (written_names (fst (main far_tile_fs (example_args\<lparr>block := 1, name_mode := Seq\<rparr>))))"
proof -
  let ?a = "example_args\<lparr>block := 1, name_mode := Seq\<rparr>"
  have es: "ensure_sets far_tile_fs (z1_map_dir ?a) (z1_ins_dir ?a) (z1_synth_dir ?a) (z1_pseudo_real_dir ?a)
      = Inr [''a_0_100000.png'']"
    by code_simp
  have d: "isdecimal ''0''" "isdecimal ''100000''" "CHR ''.'' \<notin> set ''png''" "CHR ''/'' \<notin> set ''png''"
    by code_simp+
  have v: "decimal_value ''0'' = 0" "decimal_value ''100000'' = 100000"
    by (simp_all add: decimal_value_def)
  have p: "parse_xy_from_name ''a_0_100000.png'' = Inr (Some (0, 100000))"
    using parse_xy_from_name_pattern [OF d, of "''a''"] unfolding v by simp
  from reorder_with_coordinates_single [OF p] obtain ordered grid
    where r: "reorder_with_coordinates [''a_0_100000.png''] = Inr (Some (ordered, 1, 100001, grid))"
    by auto
  have a: "block ?a = 1" "tiles_per_row ?a = None" "order_flag ?a = Row" "name_mode ?a = Seq"
    "tile_size ?a = 256" "guidance_size ?a = 64"
    by (simp_all add: example_args_def)
  have b: "build_name_grid (block ?a) (tiles_per_row ?a) (order_flag ?a) [''a_0_100000.png'']
      = Inr (ordered, 1, 100001, grid)"
    unfolding a by (simp add: build_name_grid_def r)
  have pos: "0 < block ?a" "0 < tile_size ?a" "0 < guidance_size ?a" unfolding a by simp_all
  have len: "length (blocks 1 100001 (block ?a)) = 100001"
    unfolding a length_blocks by simp
  have c: "char_of (48::nat) = CHR ''0''" "char_of (49::nat) = CHR ''1''"
    by code_simp+
  have stem: "zfill 5 (py_str 100000) @ ''.png'' = ''100000.png''"
    by (simp add: py_str.simps zfill_def c)
  have k: "(100000::nat) \<in> set [0..<100001]"
    by (simp only: set_upt atLeastLessThan_iff) simp
  have "(''real'', ''100000.png'') \<in>
     set (concat (map (\<lambda>k. [(''real'', zfill 5 (py_str k) @ ''.png''), (''map'', zfill 5 (py_str k) @ ''.png''),
                        (''ins'', zfill 5 (py_str k) @ ''.png''), (''guidance'', zfill 5 (py_str k) @ ''.png'')])
               [0..<100001]))"
    by (rule in_concat_map [OF k]) (simp only: stem list.set insertI1)
  then show ?thesis
    unfolding main_seq_names [OF es b a(4) pos] len .
qed

end
